theory Spec2Isabelle
  imports Main "HOL-Library.Sublist" "HOL-Library.Multiset"
begin

section \<open>Request bodies: JSON as Python sees it\<close>

text \<open>
  \<open>request.get_json()\<close> hands the views a Python value: \<open>None\<close>, a bool, an int, a
  float, a str, a list or a dict. A float is carried as a value of the type parameter
  \<open>'f\<close>: the views never compute with one, they only pass it to the database. A dict is
  an association list in insertion order (a parsed dict holds each key once; a lookup
  takes the first binding).
\<close>

datatype 'f json =
    JNull
  | JBool bool
  | JInt int
  | JFloat 'f
  | JStr string
  | JArr "'f json list"
  | JObj "(string \<times> 'f json) list"

text \<open>The exceptions the views can meet, by class.\<close>

datatype exn =
    KeyError string
  | TypeError
  | AttributeError
  | OverflowError
  | ProgrammingError
  | IntegrityError

text \<open>\<open>sub in s\<close> on two strings: \<open>sub\<close> occurs in \<open>s\<close> as a contiguous part.\<close>

fun str_contains :: "string \<Rightarrow> string \<Rightarrow> bool" where
  "str_contains sub [] = (sub = [])"
| "str_contains sub (c # cs) = (prefix sub (c # cs) \<or> str_contains sub cs)"

text \<open>\<open>key in data\<close> for a string \<open>key\<close>: key membership in a dict, element membership
  in a list, substring test on a str, \<open>TypeError\<close> on anything else.\<close>

fun py_in :: "string \<Rightarrow> 'f json \<Rightarrow> exn + bool" where
  "py_in key (JObj kvs) = Inr (key \<in> set (map fst kvs))"
| "py_in key (JArr xs) = Inr (JStr key \<in> set xs)"
| "py_in key (JStr s) = Inr (str_contains key s)"
| "py_in key _ = Inl TypeError"

text \<open>\<open>data[key]\<close> for a string \<open>key\<close>: \<open>KeyError\<close> on a dict without it, \<open>TypeError\<close>
  on every other value (a list or str wants an integer index, the rest cannot be
  subscripted).\<close>

fun py_getitem :: "'f json \<Rightarrow> string \<Rightarrow> exn + 'f json" where
  "py_getitem (JObj kvs) key =
     (case map_of kvs key of None \<Rightarrow> Inl (KeyError key) | Some v \<Rightarrow> Inr v)"
| "py_getitem _ key = Inl TypeError"

text \<open>\<open>data.get(key)\<close>: \<open>None\<close> for a missing key; only a dict has the method.\<close>

fun py_get :: "'f json \<Rightarrow> string \<Rightarrow> exn + 'f json" where
  "py_get (JObj kvs) key =
     (case map_of kvs key of None \<Rightarrow> Inr JNull | Some v \<Rightarrow> Inr v)"
| "py_get _ key = Inl AttributeError"

text \<open>\<open>for x in v\<close>: the elements of a list, the keys of a dict, the characters of a
  str; anything else is not iterable.\<close>

fun py_iter :: "'f json \<Rightarrow> exn + 'f json list" where
  "py_iter (JArr xs) = Inr xs"
| "py_iter (JObj kvs) = Inr (map (\<lambda>kv. JStr (fst kv)) kvs)"
| "py_iter (JStr s) = Inr (map (\<lambda>c. JStr [c]) s)"
| "py_iter _ = Inl TypeError"

text \<open>\<open>str(n)\<close> for a natural number and for an integer, in decimal.\<close>

fun str_nat :: "nat \<Rightarrow> string" where
  "str_nat n =
     (if n < 10 then [''0123456789'' ! n]
      else str_nat (n div 10) @ [''0123456789'' ! (n mod 10)])"

declare str_nat.simps [simp del]

definition str_int :: "int \<Rightarrow> string" where
  "str_int i = (if i < 0 then CHR ''-'' # str_nat (nat (- i)) else str_nat (nat i))"

section \<open>The database\<close>

text \<open>
  A value as SQLite stores it. The tables are not \<open>STRICT\<close>: a column's declared type
  gives it an affinity, and its \<open>NOT NULL\<close> and \<open>CHECK\<close> constraints are all that is
  enforced.
\<close>

datatype 'f sqlval = SNull | SInt int | SReal 'f | SText string

text \<open>
  What the storage engine does with floats and with text that spells a number is not
  part of the repository; the views are verified for every such engine \<open>cv\<close>:
  \<^item> \<open>is_nan\<close>: a NaN is bound as NULL;
  \<^item> \<open>real_as_int\<close>: a REAL with an exact integer value becomes an INTEGER in a column
    of INTEGER affinity;
  \<^item> \<open>text_as_num\<close>: text that is a well-formed numeric literal becomes that number in
    a column of INTEGER affinity;
  \<^item> \<open>real_as_text\<close>: a REAL becomes its text in a column of TEXT affinity;
  \<^item> \<open>num_le\<close>: the numeric order, asked only when one side is a REAL.
\<close>

record 'f sqlite =
  is_nan :: "'f \<Rightarrow> bool"
  real_as_int :: "'f \<Rightarrow> int option"
  text_as_num :: "string \<Rightarrow> (int + 'f) option"
  real_as_text :: "'f \<Rightarrow> string"
  num_le :: "int + 'f \<Rightarrow> int + 'f \<Rightarrow> bool"

text \<open>SQLite's integers are signed and have 64 bits; Python's are unbounded.\<close>

definition int64 :: "int \<Rightarrow> bool" where
  "int64 i = (- (2 ^ 63) \<le> i \<and> i < 2 ^ 63)"

text \<open>Binding one Python value to a \<open>?\<close>: the driver adapts \<open>None\<close>, int (bool is an
  int), float and str. An int that does not fit 64 bits raises \<open>OverflowError\<close>; a list
  or a dict is refused with \<open>ProgrammingError\<close> (\<open>InterfaceError\<close> in older
  versions of the driver; the views treat the two alike).\<close>

fun bind_param :: "'f sqlite \<Rightarrow> 'f json \<Rightarrow> exn + 'f sqlval" where
  "bind_param cv JNull = Inr SNull"
| "bind_param cv (JBool b) = Inr (SInt (if b then 1 else 0))"
| "bind_param cv (JInt i) = (if int64 i then Inr (SInt i) else Inl OverflowError)"
| "bind_param cv (JFloat f) = Inr (if is_nan cv f then SNull else SReal f)"
| "bind_param cv (JStr s) = Inr (SText s)"
| "bind_param cv (JArr xs) = Inl ProgrammingError"
| "bind_param cv (JObj kvs) = Inl ProgrammingError"

text \<open>The parameters are bound left to right; the first that fails raises.\<close>

fun bind_params :: "'f sqlite \<Rightarrow> 'f json list \<Rightarrow> exn + 'f sqlval list" where
  "bind_params cv [] = Inr []"
| "bind_params cv (p # ps) =
     (case bind_param cv p of
        Inl e \<Rightarrow> Inl e
      | Inr v \<Rightarrow> (case bind_params cv ps of Inl e \<Rightarrow> Inl e | Inr vs \<Rightarrow> Inr (v # vs)))"

fun affinity_text :: "'f sqlite \<Rightarrow> 'f sqlval \<Rightarrow> 'f sqlval" where
  "affinity_text cv (SInt i) = SText (str_int i)"
| "affinity_text cv (SReal f) = SText (real_as_text cv f)"
| "affinity_text cv v = v"

fun affinity_integer :: "'f sqlite \<Rightarrow> 'f sqlval \<Rightarrow> 'f sqlval" where
  "affinity_integer cv (SReal f) =
     (case real_as_int cv f of None \<Rightarrow> SReal f | Some i \<Rightarrow> SInt i)"
| "affinity_integer cv (SText s) =
     (case text_as_num cv s of
        None \<Rightarrow> SText s
      | Some (Inl i) \<Rightarrow> SInt i
      | Some (Inr f) \<Rightarrow> SReal f)"
| "affinity_integer cv v = v"

text \<open>The three tables of \<open>init_db\<close>. Each \<open>id\<close> is an \<open>INTEGER PRIMARY KEY
  AUTOINCREMENT\<close>; the other columns hold whatever was bound, after the column's
  affinity.\<close>

record 'f media_row =
  m_id :: int
  m_type :: "'f sqlval"
  m_title :: "'f sqlval"
  m_thumbnail_url :: "'f sqlval"
  m_details :: "'f sqlval"
  m_release_date :: "'f sqlval"
  m_created_at :: "'f sqlval"

record 'f episode_row =
  ep_id :: int
  ep_series_id :: "'f sqlval"
  ep_season_number :: "'f sqlval"
  ep_episode_number :: "'f sqlval"
  ep_title :: "'f sqlval"
  ep_video_link :: "'f sqlval"

record 'f link_row =
  ml_id :: int
  ml_movie_id :: "'f sqlval"
  ml_resolution :: "'f sqlval"
  ml_video_link :: "'f sqlval"

text \<open>The committed database: each table in rowid order, with the last id its
  \<open>AUTOINCREMENT\<close> sequence has given out. A sequence ends at the largest 64-bit
  integer, after more inserts than a server performs; the model does not bound it.\<close>

record 'f db =
  media :: "'f media_row list"
  media_seq :: int
  tv_episodes :: "'f episode_row list"
  tv_episodes_seq :: int
  movie_links :: "'f link_row list"
  movie_links_seq :: int

text \<open>\<open>init_db\<close> on a new file: the three tables, empty.\<close>

definition init_db :: "'f db" where
  "init_db = \<lparr>media = [], media_seq = 0, tv_episodes = [], tv_episodes_seq = 0,
              movie_links = [], movie_links_seq = 0\<rparr>"

text \<open>
  A connection: the committed database, the view of the open transaction, and the
  rowid of the last insert. The driver opens a transaction before the first
  \<open>INSERT\<close>; \<open>commit\<close> makes the transaction's view the committed one, \<open>rollback\<close>
  drops it.
\<close>

record 'f conn =
  stored :: "'f db"
  txn :: "'f db"
  lastrowid :: int

definition get_db :: "'f db \<Rightarrow> 'f conn" where
  "get_db d = \<lparr>stored = d, txn = d, lastrowid = 0\<rparr>"

definition commit :: "'f conn \<Rightarrow> 'f conn" where
  "commit c = c\<lparr>stored := txn c\<rparr>"

definition rollback :: "'f conn \<Rightarrow> 'f conn" where
  "rollback c = c\<lparr>txn := stored c\<rparr>"

text \<open>\<open>with get_db() as conn: body\<close>: the connection commits when the body ends or
  returns, and rolls back when an exception leaves it (the exception goes on). The
  result is the committed database the request leaves behind.\<close>

definition with_conn ::
  "'f db \<Rightarrow> ('f conn \<Rightarrow> (exn + 'a) \<times> 'f conn) \<Rightarrow> (exn + 'a) \<times> 'f db" where
  "with_conn d body =
     (case body (get_db d) of
        (Inl e, c) \<Rightarrow> (Inl e, stored (rollback c))
      | (Inr r, c) \<Rightarrow> (Inr r, stored (commit c)))"

text \<open>\<open>INSERT INTO media (type, title, thumbnail_url, details, release_date)\<close>:
  \<open>created_at\<close> takes its default, the server's clock \<open>now\<close>; \<open>type\<close> and \<open>title\<close>
  are \<open>NOT NULL\<close>, and \<open>type\<close> has the \<open>CHECK\<close>.\<close>

fun insert_media :: "'f sqlite \<Rightarrow> string \<Rightarrow> 'f sqlval list \<Rightarrow> 'f db \<Rightarrow> exn + int \<times> 'f db" where
  "insert_media cv now [ty, ti, th, de, re] d =
     (let row = \<lparr>m_id = media_seq d + 1,
                 m_type = affinity_text cv ty,
                 m_title = affinity_text cv ti,
                 m_thumbnail_url = affinity_text cv th,
                 m_details = affinity_text cv de,
                 m_release_date = affinity_text cv re,
                 m_created_at = SText now\<rparr>
      in if m_type row = SNull \<or> m_title row = SNull then Inl IntegrityError
         else if m_type row \<noteq> SText ''movie'' \<and> m_type row \<noteq> SText ''tvseries''
           then Inl IntegrityError
         else Inr (m_id row, d\<lparr>media := media d @ [row], media_seq := m_id row\<rparr>))"
| "insert_media cv now vs d = Inl ProgrammingError"

text \<open>\<open>INSERT INTO movie_links (movie_id, resolution, video_link)\<close>.\<close>

fun insert_movie_link :: "'f sqlite \<Rightarrow> 'f sqlval list \<Rightarrow> 'f db \<Rightarrow> exn + int \<times> 'f db" where
  "insert_movie_link cv [mi, res, vl] d =
     (let row = \<lparr>ml_id = movie_links_seq d + 1,
                 ml_movie_id = affinity_integer cv mi,
                 ml_resolution = affinity_text cv res,
                 ml_video_link = affinity_text cv vl\<rparr>
      in if ml_movie_id row = SNull \<or> ml_video_link row = SNull then Inl IntegrityError
         else Inr (ml_id row,
                   d\<lparr>movie_links := movie_links d @ [row], movie_links_seq := ml_id row\<rparr>))"
| "insert_movie_link cv vs d = Inl ProgrammingError"

text \<open>\<open>INSERT INTO tv_episodes (series_id, season_number, episode_number, title,
  video_link)\<close>.\<close>

fun insert_tv_episode :: "'f sqlite \<Rightarrow> 'f sqlval list \<Rightarrow> 'f db \<Rightarrow> exn + int \<times> 'f db" where
  "insert_tv_episode cv [si, sn, en, ti, vl] d =
     (let row = \<lparr>ep_id = tv_episodes_seq d + 1,
                 ep_series_id = affinity_integer cv si,
                 ep_season_number = affinity_integer cv sn,
                 ep_episode_number = affinity_integer cv en,
                 ep_title = affinity_text cv ti,
                 ep_video_link = affinity_text cv vl\<rparr>
      in if ep_series_id row = SNull \<or> ep_season_number row = SNull
            \<or> ep_episode_number row = SNull \<or> ep_video_link row = SNull
           then Inl IntegrityError
         else Inr (ep_id row,
                   d\<lparr>tv_episodes := tv_episodes d @ [row], tv_episodes_seq := ep_id row\<rparr>))"
| "insert_tv_episode cv vs d = Inl ProgrammingError"

text \<open>\<open>execute(sql, params)\<close> for an \<open>INSERT\<close>: bind, run the statement in the open
  transaction, remember the rowid. A statement that fails changes nothing.\<close>

definition execute ::
  "('f sqlval list \<Rightarrow> 'f db \<Rightarrow> exn + int \<times> 'f db) \<Rightarrow> 'f sqlite \<Rightarrow> 'f json list \<Rightarrow> 'f conn
     \<Rightarrow> exn + 'f conn" where
  "execute stmt cv params c =
     (case bind_params cv params of
        Inl e \<Rightarrow> Inl e
      | Inr vs \<Rightarrow>
          (case stmt vs (txn c) of
             Inl e \<Rightarrow> Inl e
           | Inr (rid, d) \<Rightarrow> Inr (c\<lparr>txn := d, lastrowid := rid\<rparr>)))"

text \<open>\<open>SELECT ... FROM media WHERE id = ?\<close>, \<open>fetchone()\<close>, once \<open>media_id\<close> is bound:
  the row with that id, if there is one.\<close>

definition select_media :: "'f db \<Rightarrow> int \<Rightarrow> 'f media_row option" where
  "select_media d media_id = find (\<lambda>r. m_id r = media_id) (media d)"

section \<open>Responses\<close>

text \<open>
  What a view answers: \<open>jsonify(body), status\<close>; or, from the \<open>except Exception\<close>
  handler, \<open>jsonify({"error": str(e)}), 500\<close>, kept as the exception caught; or an
  exception that leaves the view, which the framework answers with status 500.
\<close>

datatype 'f response =
    Response nat "'f json"
  | Caught exn
  | Uncaught exn

fun status :: "'f response \<Rightarrow> nat" where
  "status (Response code body) = code"
| "status (Caught e) = 500"
| "status (Uncaught e) = 500"

definition error_body :: "string \<Rightarrow> 'f json" where
  "error_body msg = JObj [(''error'', JStr msg)]"

section \<open>Public endpoints\<close>

fun to_json :: "'f sqlval \<Rightarrow> 'f json" where
  "to_json SNull = JNull"
| "to_json (SInt i) = JInt i"
| "to_json (SReal f) = JFloat f"
| "to_json (SText s) = JStr s"

text \<open>\<open>dict(row)\<close> for a row of \<open>SELECT * FROM media\<close>, of the links query and of the
  episodes query.\<close>

definition dict_media :: "'f media_row \<Rightarrow> (string \<times> 'f json) list" where
  "dict_media r =
     [(''id'', JInt (m_id r)),
      (''type'', to_json (m_type r)),
      (''title'', to_json (m_title r)),
      (''thumbnail_url'', to_json (m_thumbnail_url r)),
      (''details'', to_json (m_details r)),
      (''release_date'', to_json (m_release_date r)),
      (''created_at'', to_json (m_created_at r))]"

definition dict_link :: "'f link_row \<Rightarrow> 'f json" where
  "dict_link r =
     JObj [(''resolution'', to_json (ml_resolution r)),
           (''video_link'', to_json (ml_video_link r))]"

definition dict_episode :: "'f episode_row \<Rightarrow> 'f json" where
  "dict_episode r =
     JObj [(''season_number'', to_json (ep_season_number r)),
           (''episode_number'', to_json (ep_episode_number r)),
           (''title'', to_json (ep_title r)),
           (''video_link'', to_json (ep_video_link r))]"







text \<open>\<open>GET /media\<close>.\<close>

definition get_all_media :: "'f db \<Rightarrow> 'f response" where
  "get_all_media d = Response 200 (JArr (map (\<lambda>r. JObj (dict_media r)) (media d)))"


section \<open>Admin endpoints\<close>

text \<open>The views are entered after \<open>@auth.login_required\<close> has accepted the
  credentials; a request it refuses never reaches them.\<close>

text \<open>\<open>all(field in data for field in ['type', 'title'])\<close>: the generator stops at the
  first field that is missing.\<close>

definition has_required :: "'f json \<Rightarrow> exn + bool" where
  "has_required data =
     (case py_in ''type'' data of
        Inl e \<Rightarrow> Inl e
      | Inr False \<Rightarrow> Inr False
      | Inr True \<Rightarrow> py_in ''title'' data)"

text \<open>\<open>data['type'] == ty and key in data\<close>.\<close>

definition type_and_key :: "'f json \<Rightarrow> string \<Rightarrow> string \<Rightarrow> exn + bool" where
  "type_and_key data ty key =
     (case py_getitem data ''type'' of
        Inl e \<Rightarrow> Inl e
      | Inr t \<Rightarrow> if t = JStr ty then py_in key data else Inr False)"

text \<open>The parameter tuples, evaluated left to right.\<close>

definition media_params :: "'f json \<Rightarrow> exn + 'f json list" where
  "media_params data =
     (case py_getitem data ''type'' of Inl e \<Rightarrow> Inl e | Inr ty \<Rightarrow>
     (case py_getitem data ''title'' of Inl e \<Rightarrow> Inl e | Inr ti \<Rightarrow>
     (case py_get data ''thumbnail_url'' of Inl e \<Rightarrow> Inl e | Inr th \<Rightarrow>
     (case py_get data ''details'' of Inl e \<Rightarrow> Inl e | Inr de \<Rightarrow>
     (case py_get data ''release_date'' of Inl e \<Rightarrow> Inl e | Inr re \<Rightarrow>
      Inr [ty, ti, th, de, re])))))"

definition link_params :: "int \<Rightarrow> 'f json \<Rightarrow> exn + 'f json list" where
  "link_params media_id link =
     (case py_get link ''resolution'' of Inl e \<Rightarrow> Inl e | Inr res \<Rightarrow>
     (case py_getitem link ''video_link'' of Inl e \<Rightarrow> Inl e | Inr vl \<Rightarrow>
      Inr [JInt media_id, res, vl]))"

definition episode_params :: "int \<Rightarrow> 'f json \<Rightarrow> exn + 'f json list" where
  "episode_params media_id episode =
     (case py_getitem episode ''season_number'' of Inl e \<Rightarrow> Inl e | Inr sn \<Rightarrow>
     (case py_getitem episode ''episode_number'' of Inl e \<Rightarrow> Inl e | Inr en \<Rightarrow>
     (case py_get episode ''title'' of Inl e \<Rightarrow> Inl e | Inr ti \<Rightarrow>
     (case py_getitem episode ''video_link'' of Inl e \<Rightarrow> Inl e | Inr vl \<Rightarrow>
      Inr [JInt media_id, sn, en, ti, vl]))))"

text \<open>The two insert loops. An exception ends the loop where it is, with the
  connection as the earlier inserts left it.\<close>

fun insert_links ::
  "'f sqlite \<Rightarrow> int \<Rightarrow> 'f json list \<Rightarrow> 'f conn \<Rightarrow> (exn + unit) \<times> 'f conn" where
  "insert_links cv media_id [] c = (Inr (), c)"
| "insert_links cv media_id (link # links) c =
     (case link_params media_id link of
        Inl e \<Rightarrow> (Inl e, c)
      | Inr ps \<Rightarrow>
          (case execute (insert_movie_link cv) cv ps c of
             Inl e \<Rightarrow> (Inl e, c)
           | Inr c' \<Rightarrow> insert_links cv media_id links c'))"

fun insert_episodes ::
  "'f sqlite \<Rightarrow> int \<Rightarrow> 'f json list \<Rightarrow> 'f conn \<Rightarrow> (exn + unit) \<times> 'f conn" where
  "insert_episodes cv media_id [] c = (Inr (), c)"
| "insert_episodes cv media_id (episode # episodes) c =
     (case episode_params media_id episode of
        Inl e \<Rightarrow> (Inl e, c)
      | Inr ps \<Rightarrow>
          (case execute (insert_tv_episode cv) cv ps c of
             Inl e \<Rightarrow> (Inl e, c)
           | Inr c' \<Rightarrow> insert_episodes cv media_id episodes c'))"

text \<open>\<open>for x in data[key]: ...\<close> with one of the loops.\<close>

definition for_each ::
  "'f json \<Rightarrow> string \<Rightarrow> ('f json list \<Rightarrow> 'f conn \<Rightarrow> (exn + unit) \<times> 'f conn) \<Rightarrow> 'f conn
     \<Rightarrow> (exn + unit) \<times> 'f conn" where
  "for_each data key loop c =
     (case py_getitem data key of
        Inl e \<Rightarrow> (Inl e, c)
      | Inr v \<Rightarrow> (case py_iter v of Inl e \<Rightarrow> (Inl e, c) | Inr items \<Rightarrow> loop items c))"

text \<open>The \<open>if\<close>/\<open>elif\<close> of \<open>add_media\<close> that inserts the children.\<close>

definition insert_children ::
  "'f sqlite \<Rightarrow> int \<Rightarrow> 'f json \<Rightarrow> 'f conn \<Rightarrow> (exn + unit) \<times> 'f conn" where
  "insert_children cv media_id data c =
     (case type_and_key data ''movie'' ''video_links'' of
        Inl e \<Rightarrow> (Inl e, c)
      | Inr True \<Rightarrow> for_each data ''video_links'' (insert_links cv media_id) c
      | Inr False \<Rightarrow>
          (case type_and_key data ''tvseries'' ''episodes'' of
             Inl e \<Rightarrow> (Inl e, c)
           | Inr True \<Rightarrow> for_each data ''episodes'' (insert_episodes cv media_id) c
           | Inr False \<Rightarrow> (Inr (), c)))"

text \<open>The body of the \<open>with\<close> block of \<open>add_media\<close>.\<close>

definition add_media_body ::
  "'f sqlite \<Rightarrow> string \<Rightarrow> 'f json \<Rightarrow> 'f conn \<Rightarrow> (exn + 'f response) \<times> 'f conn" where
  "add_media_body cv now data c =
     (case media_params data of
        Inl e \<Rightarrow> (Inl e, c)
      | Inr ps \<Rightarrow>
          (case execute (insert_media cv now) cv ps c of
             Inl e \<Rightarrow> (Inl e, c)
           | Inr c1 \<Rightarrow>
               (let media_id = lastrowid c1 in
                case insert_children cv media_id data c1 of
                  (Inl e, c2) \<Rightarrow> (Inl e, c2)
                | (Inr u, c2) \<Rightarrow>
                    (Inr (Response 201
                       (JObj [(''message'', JStr ''Media added successfully''),
                              (''id'', JInt media_id)])),
                     commit c2))))"

text \<open>\<open>POST /admin/media\<close>: the request body, the clock and the database before;
  the response and the database after.\<close>

definition add_media ::
  "'f sqlite \<Rightarrow> string \<Rightarrow> 'f db \<Rightarrow> 'f json \<Rightarrow> 'f response \<times> 'f db" where
  "add_media cv now d data =
     (case has_required data of
        Inl e \<Rightarrow> (Uncaught e, d)
      | Inr False \<Rightarrow> (Response 400 (error_body ''Missing required fields''), d)
      | Inr True \<Rightarrow>
          (case py_getitem data ''type'' of
             Inl e \<Rightarrow> (Uncaught e, d)
           | Inr ty \<Rightarrow>
               if ty \<noteq> JStr ''movie'' \<and> ty \<noteq> JStr ''tvseries''
               then (Response 400 (error_body ''Invalid media type''), d)
               else (case with_conn d (add_media_body cv now data) of
                       (Inl e, d') \<Rightarrow> (Caught e, d')
                     | (Inr r, d') \<Rightarrow> (r, d'))))"

text \<open>The body of the \<open>with\<close> block of \<open>add_episodes\<close>; \<open>data\<close> is a list here. The
  \<open>SELECT\<close> binds \<open>media_id\<close>, which the route takes from any run of digits, so the
  binding can raise before the row is looked up.\<close>

definition add_episodes_body ::
  "'f sqlite \<Rightarrow> int \<Rightarrow> 'f json list \<Rightarrow> 'f conn \<Rightarrow> (exn + 'f response) \<times> 'f conn" where
  "add_episodes_body cv media_id data c =
     (case bind_params cv [JInt media_id] of
        Inl e \<Rightarrow> (Inl e, c)
      | Inr vs \<Rightarrow>
     (case select_media (txn c) media_id of
        None \<Rightarrow> (Inr (Response 404 (error_body ''Media not found'')), c)
      | Some m \<Rightarrow>
          if m_type m \<noteq> SText ''tvseries''
          then (Inr (Response 400 (error_body ''Can only add episodes to TV series'')), c)
          else (case insert_episodes cv media_id data c of
                  (Inl e, c') \<Rightarrow> (Inl e, c')
                | (Inr u, c') \<Rightarrow>
                    (Inr (Response 201
                       (JObj [(''message'',
                               JStr (str_nat (length data) @ '' episodes added successfully''))])),
                     commit c'))))"

text \<open>\<open>POST /admin/media/<int:media_id>/episodes\<close>.\<close>

definition add_episodes ::
  "'f sqlite \<Rightarrow> 'f db \<Rightarrow> int \<Rightarrow> 'f json \<Rightarrow> 'f response \<times> 'f db" where
  "add_episodes cv d media_id data =
     (case data of
        JArr episodes \<Rightarrow>
          (case with_conn d (add_episodes_body cv media_id episodes) of
             (Inl e, d') \<Rightarrow> (Caught e, d')
           | (Inr r, d') \<Rightarrow> (r, d'))
      | _ \<Rightarrow> (Response 400 (error_body ''Expected array of episodes''), d))"

section \<open>The server over time\<close>

text \<open>Only the two admin endpoints write. A history is the list of the write
  requests the server has answered since \<open>init_db\<close> made the tables; \<open>serve\<close> gives
  the database they leave.\<close>

datatype 'f request =
    AddMedia string "'f json"
  | AddEpisodes int "'f json"

fun handle :: "'f sqlite \<Rightarrow> 'f db \<Rightarrow> 'f request \<Rightarrow> 'f db" where
  "handle cv d (AddMedia now data) = snd (add_media cv now d data)"
| "handle cv d (AddEpisodes media_id data) = snd (add_episodes cv d media_id data)"

definition serve :: "'f sqlite \<Rightarrow> 'f request list \<Rightarrow> 'f db" where
  "serve cv history = foldl (handle cv) init_db history"

section \<open>Vocabulary of the properties\<close>

text \<open>An object that lacks one of the given keys.\<close>

fun omits :: "string list \<Rightarrow> 'f json \<Rightarrow> bool" where
  "omits keys (JObj kvs) = (\<exists>k\<in>set keys. k \<notin> fst ` set kvs)"
| "omits keys j = False"

text \<open>The items a request supplies under a key: what \<open>for x in data[key]\<close> runs
  over, and nothing when there is no such key or its value cannot be iterated.\<close>

definition supplied :: "'f json \<Rightarrow> string \<Rightarrow> 'f json list" where
  "supplied data key =
     (case py_getitem data key of
        Inl e \<Rightarrow> []
      | Inr v \<Rightarrow> (case py_iter v of Inl e \<Rightarrow> [] | Inr items \<Rightarrow> items))"

text \<open>The request body without one of its keys.\<close>

definition without :: "string \<Rightarrow> (string \<times> 'f json) list \<Rightarrow> (string \<times> 'f json) list" where
  "without key kvs = filter (\<lambda>kv. fst kv \<noteq> key) kvs"

text \<open>A value that is a string or \<open>null\<close>; an optional text field of an object.\<close>

fun text_or_null :: "'f json \<Rightarrow> bool" where
  "text_or_null JNull = True"
| "text_or_null (JStr s) = True"
| "text_or_null j = False"

definition optional_text :: "(string \<times> 'f json) list \<Rightarrow> string \<Rightarrow> bool" where
  "optional_text kvs key =
     (case map_of kvs key of None \<Rightarrow> True | Some v \<Rightarrow> text_or_null v)"

text \<open>The season and episode number of an episode object, in a request or in a
  response, when both are integers; and their order.\<close>

fun int_field :: "'f json \<Rightarrow> string \<Rightarrow> int option" where
  "int_field (JObj kvs) key = (case map_of kvs key of Some (JInt i) \<Rightarrow> Some i | _ \<Rightarrow> None)"
| "int_field j key = None"

definition episode_key :: "'f json \<Rightarrow> (int \<times> int) option" where
  "episode_key j =
     (case int_field j ''season_number'' of
        None \<Rightarrow> None
      | Some s \<Rightarrow>
          (case int_field j ''episode_number'' of None \<Rightarrow> None | Some e \<Rightarrow> Some (s, e)))"

definition numbered :: "'f json \<Rightarrow> bool" where
  "numbered j = (episode_key j \<noteq> None)"


text \<open>A link object whose \<open>video_link\<close> is a string and whose \<open>resolution\<close> is a string,
  \<open>null\<close> or absent; and the pair \<open>{resolution, video_link}\<close> it submits, an absent
  \<open>resolution\<close> being \<open>null\<close>.\<close>

fun valid_link :: "'f json \<Rightarrow> bool" where
  "valid_link (JObj kvs) =
     ((case map_of kvs ''video_link'' of Some (JStr v) \<Rightarrow> True | _ \<Rightarrow> False)
      \<and> optional_text kvs ''resolution'')"
| "valid_link j = False"

fun link_pair :: "'f json \<Rightarrow> 'f json" where
  "link_pair (JObj kvs) =
     JObj [(''resolution'', (case map_of kvs ''resolution'' of None \<Rightarrow> JNull | Some v \<Rightarrow> v)),
           (''video_link'', (case map_of kvs ''video_link'' of None \<Rightarrow> JNull | Some v \<Rightarrow> v))]"
| "link_pair j = j"


text \<open>The rows the two child tables gain with a new media \<open>mid\<close> of type \<open>ty\<close>:
  one for each item supplied under the key that matches the type, all owned by
  \<open>mid\<close>, with the required columns set; and what they hold when the items are
  valid links or numbered episodes.\<close>

definition children_of ::
  "'f json \<Rightarrow> int \<Rightarrow> 'f json \<Rightarrow> 'f link_row list \<Rightarrow> 'f episode_row list \<Rightarrow> bool" where
  "children_of data mid ty ls es =
     (length ls = (if ty = JStr ''movie'' then length (supplied data ''video_links'') else 0)
      \<and> length es = (if ty = JStr ''tvseries'' then length (supplied data ''episodes'') else 0)
      \<and> (\<forall>r\<in>set ls. ml_movie_id r = SInt mid)
      \<and> (\<forall>r\<in>set es. ep_series_id r = SInt mid
              \<and> ep_season_number r \<noteq> SNull \<and> ep_episode_number r \<noteq> SNull
              \<and> ep_video_link r \<noteq> SNull)
      \<and> (ty = JStr ''movie'' \<and> list_all valid_link (supplied data ''video_links'') \<longrightarrow>
              map dict_link ls = map link_pair (supplied data ''video_links''))
      \<and> (ty = JStr ''tvseries'' \<and> list_all numbered (supplied data ''episodes'') \<longrightarrow>
              map (\<lambda>r. episode_key (dict_episode r)) es
                = map episode_key (supplied data ''episodes'')))"

section \<open>A concrete engine and two small databases\<close>

text \<open>An engine over a float type with one value, for evaluating the views on
  requests without floats.\<close>

definition engine0 :: "unit sqlite" where
  "engine0 = \<lparr>is_nan = (\<lambda>f. False), real_as_int = (\<lambda>f. None),
              text_as_num = (\<lambda>s. None), real_as_text = (\<lambda>f. []),
              num_le = (\<lambda>a b. True)\<rparr>"

text \<open>The database after one \<open>POST /admin/media\<close> on a new file: a series without
  episodes, and a movie without links.\<close>

definition series_db :: "unit db" where
  "series_db = snd (add_media engine0 ''2024-01-01 00:00:00'' init_db
       (JObj [(''type'', JStr ''tvseries''), (''title'', JStr ''S'')]))"

definition movie_db :: "unit db" where
  "movie_db = snd (add_media engine0 ''2024-01-01 00:00:00'' init_db
       (JObj [(''type'', JStr ''movie''), (''title'', JStr ''X'')]))"

text \<open>The text a request stores under an optional key: its string, or NULL when the
  key is absent or \<open>null\<close>.\<close>

definition text_value :: "(string \<times> 'f json) list \<Rightarrow> string \<Rightarrow> 'f sqlval" where
  "text_value kvs key = (case map_of kvs key of Some (JStr s) \<Rightarrow> SText s | _ \<Rightarrow> SNull)"

text \<open>A series with a batch of two episodes, the second without its \<open>video_link\<close>.\<close>

definition batch_payload :: "unit json" where
  "batch_payload =
     JObj [(''type'', JStr ''tvseries''), (''title'', JStr ''S''),
           (''episodes'', JArr
              [JObj [(''season_number'', JInt 1), (''episode_number'', JInt 1),
                     (''video_link'', JStr ''http://a'')],
               JObj [(''season_number'', JInt 1), (''episode_number'', JInt 2)]])]"

text \<open>A movie with one link that has no \<open>video_link\<close>; a series that comes with a
  \<open>video_links\<close> array; an episode numbered season 0, episode -1; an episode whose
  season is the word \<open>one\<close>.\<close>

definition linkless_payload :: "unit json" where
  "linkless_payload =
     JObj [(''type'', JStr ''movie''), (''title'', JStr ''X''),
           (''video_links'', JArr [JObj [(''resolution'', JStr ''720p'')]])]"

definition mismatched_payload :: "unit json" where
  "mismatched_payload =
     JObj [(''type'', JStr ''tvseries''), (''title'', JStr ''S''),
           (''video_links'', JArr [JObj [(''resolution'', JStr ''720p''),
                                         (''video_link'', JStr ''http://a'')]])]"

definition unchecked_episode :: "unit json" where
  "unchecked_episode =
     JObj [(''season_number'', JInt 0), (''episode_number'', JInt (- 1)),
           (''video_link'', JStr ''http://a'')]"

definition unnumbered_episode :: "unit json" where
  "unnumbered_episode =
     JObj [(''season_number'', JStr ''one''), (''episode_number'', JInt 1),
           (''video_link'', JStr ''http://b'')]"

text \<open>A movie that comes with an \<open>episodes\<close> array.\<close>

definition mismatched_movie :: "unit json" where
  "mismatched_movie =
     JObj [(''type'', JStr ''movie''), (''title'', JStr ''X''),
           (''episodes'', JArr [JObj [(''season_number'', JInt 1),
                                      (''episode_number'', JInt 1),
                                      (''video_link'', JStr ''http://a'')]])]"



section \<open>Evaluation and the transaction\<close>

lemmas view_defs =
  add_media_def has_required_def with_conn_def add_media_body_def media_params_def
  execute_def get_db_def insert_children_def type_and_key_def commit_def rollback_def
  init_db_def for_each_def link_params_def episode_params_def add_episodes_def
  add_episodes_body_def select_media_def error_body_def int64_def Let_def

lemma series_db_eq:
  "series_db = \<lparr>media = [\<lparr>m_id = 1, m_type = SText ''tvseries'', m_title = SText ''S'',
        m_thumbnail_url = SNull, m_details = SNull, m_release_date = SNull,
        m_created_at = SText ''2024-01-01 00:00:00''\<rparr>],
    media_seq = 1, tv_episodes = [], tv_episodes_seq = 0, movie_links = [],
    movie_links_seq = 0\<rparr>"
  by (simp add: series_db_def engine0_def view_defs)


text \<open>No statement commits: only \<open>commit\<close> changes what is stored.\<close>

lemma execute_stored: "execute stmt cv ps c = Inr c' \<Longrightarrow> stored c' = stored c"
  by (auto simp: execute_def split: sum.splits prod.splits)

lemma insert_links_stored:
  "insert_links cv mid items c = (r, c') \<Longrightarrow> stored c' = stored c"
  by (induction items arbitrary: c) (auto split: sum.splits dest: execute_stored)

lemma insert_episodes_stored:
  "insert_episodes cv mid items c = (r, c') \<Longrightarrow> stored c' = stored c"
  by (induction items arbitrary: c) (auto split: sum.splits dest: execute_stored)

section \<open>Creating a media: the type check\<close>

text \<open>
  Claim C6. A body of \<open>POST /admin/media\<close> that is an object with a \<open>type\<close> other than
  \<open>"movie"\<close> and \<open>"tvseries"\<close> is answered with status 400, and the database is left as
  it was: no row of any table is added, and \<open>GET /media\<close> answers as before.
\<close>

theorem add_media_invalid_type:
  assumes "map_of kvs ''type'' = Some ty"
    and "ty \<noteq> JStr ''movie''" and "ty \<noteq> JStr ''tvseries''"
  shows "status (fst (add_media cv now d (JObj kvs))) = 400
       \<and> snd (add_media cv now d (JObj kvs)) = d
       \<and> get_all_media (snd (add_media cv now d (JObj kvs))) = get_all_media d"
proof -
  from assms(1) have "(''type'', ty) \<in> set kvs" by (rule map_of_SomeD)
  then have "''type'' \<in> fst ` set kvs" by force
  with assms show ?thesis
    by (cases "''title'' \<in> fst ` set kvs") (simp_all add: add_media_def has_required_def)
qed

theorem add_media_invalid_type_witness:
  "status (fst (add_media engine0 ''2024-01-01 00:00:00'' movie_db
      (JObj [(''type'', JStr ''book''), (''title'', JStr ''X'')]))) = 400
   \<and> snd (add_media engine0 ''2024-01-01 00:00:00'' movie_db
      (JObj [(''type'', JStr ''book''), (''title'', JStr ''X'')])) = movie_db"
proof -
  have h: "map_of [(''type'', JStr ''book''), (''title'', JStr ''X'')] ''type''
             = Some (JStr ''book'' :: unit json)"
    by simp
  show ?thesis
    using add_media_invalid_type [OF h, of engine0 "''2024-01-01 00:00:00''" movie_db]
    by simp
qed

section \<open>The insert loops\<close>

text \<open>What one pass of a loop does when it succeeds, and then the whole loop: the
  rows are appended to the one table, one for each item, in order.\<close>

lemma bind_int: "bind_param cv (JInt i) = Inr v \<Longrightarrow> v = SInt i \<and> int64 i"
  by (simp split: if_splits)

lemma bind_params5:
  "bind_params cv [a, b, c, d, e] = Inr vs \<Longrightarrow>
   \<exists>a' b' c' d' e'. vs = [a', b', c', d', e'] \<and> bind_param cv a = Inr a'
     \<and> bind_param cv b = Inr b' \<and> bind_param cv c = Inr c'
     \<and> bind_param cv d = Inr d' \<and> bind_param cv e = Inr e'"
  by (auto split: sum.splits)

lemma bind_params3:
  "bind_params cv [a, b, c] = Inr vs \<Longrightarrow>
   \<exists>a' b' c'. vs = [a', b', c'] \<and> bind_param cv a = Inr a'
     \<and> bind_param cv b = Inr b' \<and> bind_param cv c = Inr c'"
  by (auto split: sum.splits)

lemma episode_params_Inr:
  "episode_params mid ep = Inr ps \<Longrightarrow>
   \<exists>kvs sn en vl. ep = JObj kvs \<and> map_of kvs ''season_number'' = Some sn
     \<and> map_of kvs ''episode_number'' = Some en \<and> map_of kvs ''video_link'' = Some vl
     \<and> ps = [JInt mid, sn, en,
             (case map_of kvs ''title'' of None \<Rightarrow> JNull | Some t \<Rightarrow> t), vl]"
  by (cases ep) (auto simp: episode_params_def split: sum.splits option.splits)

lemma link_params_Inr:
  "link_params mid link = Inr ps \<Longrightarrow>
   \<exists>kvs vl. link = JObj kvs \<and> map_of kvs ''video_link'' = Some vl
     \<and> ps = [JInt mid,
             (case map_of kvs ''resolution'' of None \<Rightarrow> JNull | Some t \<Rightarrow> t), vl]"
  by (cases link) (auto simp: link_params_def split: sum.splits option.splits)

lemma insert_tv_episode5:
  assumes "insert_tv_episode cv [si, sn, en, ti, vl] d = Inr (rid, d')"
  shows "\<exists>row. d' = d\<lparr>tv_episodes := tv_episodes d @ [row],
                        tv_episodes_seq := tv_episodes_seq d + 1\<rparr>
           \<and> ep_series_id row = affinity_integer cv si
           \<and> ep_season_number row = affinity_integer cv sn
           \<and> ep_episode_number row = affinity_integer cv en
           \<and> ep_title row = affinity_text cv ti
           \<and> ep_video_link row = affinity_text cv vl
           \<and> ep_season_number row \<noteq> SNull \<and> ep_episode_number row \<noteq> SNull
           \<and> ep_video_link row \<noteq> SNull"
  using assms by (auto simp: Let_def split: if_splits)

lemma insert_movie_link3:
  assumes "insert_movie_link cv [mi, res, vl] d = Inr (rid, d')"
  shows "\<exists>row. d' = d\<lparr>movie_links := movie_links d @ [row],
                        movie_links_seq := movie_links_seq d + 1\<rparr>
           \<and> ml_movie_id row = affinity_integer cv mi
           \<and> ml_resolution row = affinity_text cv res
           \<and> ml_video_link row = affinity_text cv vl
           \<and> ml_video_link row \<noteq> SNull"
  using assms by (auto simp: Let_def split: if_splits)

lemma episode_step:
  assumes p: "episode_params mid ep = Inr ps"
    and e: "execute (insert_tv_episode cv) cv ps c = Inr c1"
  shows "\<exists>row. txn c1 = (txn c)\<lparr>tv_episodes := tv_episodes (txn c) @ [row],
                        tv_episodes_seq := tv_episodes_seq (txn c) + 1\<rparr>
           \<and> stored c1 = stored c
           \<and> ep_series_id row = SInt mid
           \<and> ep_season_number row \<noteq> SNull \<and> ep_episode_number row \<noteq> SNull
           \<and> ep_video_link row \<noteq> SNull
           \<and> (numbered ep \<longrightarrow> episode_key (dict_episode row) = episode_key ep)"
proof -
  from episode_params_Inr [OF p] obtain kvs sn en vl where
    ep: "ep = JObj kvs" and sn: "map_of kvs ''season_number'' = Some sn"
    and en: "map_of kvs ''episode_number'' = Some en"
    and ps: "ps = [JInt mid, sn, en,
             (case map_of kvs ''title'' of None \<Rightarrow> JNull | Some t \<Rightarrow> t), vl]"
    by blast
  from e obtain vs rid d' where b: "bind_params cv ps = Inr vs"
    and i: "insert_tv_episode cv vs (txn c) = Inr (rid, d')"
    and c1: "c1 = c\<lparr>txn := d', lastrowid := rid\<rparr>"
    by (auto simp: execute_def split: sum.splits prod.splits)
  from bind_params5 [OF b [unfolded ps]] obtain si' sn' en' ti' vl' where
    vs: "vs = [si', sn', en', ti', vl']" and si': "bind_param cv (JInt mid) = Inr si'"
    and sn': "bind_param cv sn = Inr sn'" and en': "bind_param cv en = Inr en'"
    by blast
  from insert_tv_episode5 [OF i [unfolded vs]] obtain row where
    d': "d' = (txn c)\<lparr>tv_episodes := tv_episodes (txn c) @ [row],
                        tv_episodes_seq := tv_episodes_seq (txn c) + 1\<rparr>"
    and row: "ep_series_id row = affinity_integer cv si'"
      "ep_season_number row = affinity_integer cv sn'"
      "ep_episode_number row = affinity_integer cv en'"
      "ep_season_number row \<noteq> SNull" "ep_episode_number row \<noteq> SNull"
      "ep_video_link row \<noteq> SNull"
    by blast
  have key: "episode_key (dict_episode row) = episode_key ep" if "numbered ep"
  proof -
    from that ep sn en obtain s n where "sn = JInt s" "en = JInt n"
      by (auto simp: numbered_def episode_key_def split: option.splits json.splits)
    with sn' en' row ep sn en show ?thesis
      by (auto simp: episode_key_def dict_episode_def split: if_splits)
  qed
  from bind_int [OF si'] have "si' = SInt mid" by simp
  with d' c1 row key show ?thesis by auto
qed

lemma link_step:
  assumes p: "link_params mid link = Inr ps"
    and e: "execute (insert_movie_link cv) cv ps c = Inr c1"
  shows "\<exists>row. txn c1 = (txn c)\<lparr>movie_links := movie_links (txn c) @ [row],
                        movie_links_seq := movie_links_seq (txn c) + 1\<rparr>
           \<and> stored c1 = stored c
           \<and> ml_movie_id row = SInt mid
           \<and> (valid_link link \<longrightarrow> dict_link row = link_pair link)"
proof -
  from link_params_Inr [OF p] obtain kvs vl where
    link: "link = JObj kvs" and vl: "map_of kvs ''video_link'' = Some vl"
    and ps: "ps = [JInt mid,
             (case map_of kvs ''resolution'' of None \<Rightarrow> JNull | Some t \<Rightarrow> t), vl]"
    by blast
  from e obtain vs rid d' where b: "bind_params cv ps = Inr vs"
    and i: "insert_movie_link cv vs (txn c) = Inr (rid, d')"
    and c1: "c1 = c\<lparr>txn := d', lastrowid := rid\<rparr>"
    by (auto simp: execute_def split: sum.splits prod.splits)
  from bind_params3 [OF b [unfolded ps]] obtain mi' res' vl' where
    vs: "vs = [mi', res', vl']" and mi': "bind_param cv (JInt mid) = Inr mi'"
    and res': "bind_param cv
        (case map_of kvs ''resolution'' of None \<Rightarrow> JNull | Some t \<Rightarrow> t) = Inr res'"
    and vl': "bind_param cv vl = Inr vl'"
    by blast
  from insert_movie_link3 [OF i [unfolded vs]] obtain row where
    d': "d' = (txn c)\<lparr>movie_links := movie_links (txn c) @ [row],
                        movie_links_seq := movie_links_seq (txn c) + 1\<rparr>"
    and row: "ml_movie_id row = affinity_integer cv mi'"
      "ml_resolution row = affinity_text cv res'"
      "ml_video_link row = affinity_text cv vl'"
    by blast
  have pair: "dict_link row = link_pair link" if "valid_link link"
  proof -
    from that link vl obtain v where v: "vl = JStr v"
      by (auto split: option.splits json.splits)
    from that link have "text_or_null
        (case map_of kvs ''resolution'' of None \<Rightarrow> JNull | Some t \<Rightarrow> t)"
      by (auto simp: optional_text_def split: option.splits)
    then have "to_json (affinity_text cv res')
        = (case map_of kvs ''resolution'' of None \<Rightarrow> JNull | Some t \<Rightarrow> t)"
      using res'
      by (cases "case map_of kvs ''resolution'' of None \<Rightarrow> JNull | Some t \<Rightarrow> t") auto
    with v vl vl' row link show ?thesis
      by (auto simp: dict_link_def)
  qed
  from bind_int [OF mi'] have "mi' = SInt mid" by simp
  with d' c1 row pair show ?thesis by auto
qed

lemma insert_episodes_Inr:
  "insert_episodes cv mid items c = (Inr u, c') \<Longrightarrow>
   \<exists>rows. txn c' = (txn c)\<lparr>tv_episodes := tv_episodes (txn c) @ rows,
                   tv_episodes_seq := tv_episodes_seq (txn c) + int (length rows)\<rparr>
        \<and> length rows = length items
        \<and> (\<forall>r\<in>set rows. ep_series_id r = SInt mid
              \<and> ep_season_number r \<noteq> SNull \<and> ep_episode_number r \<noteq> SNull
              \<and> ep_video_link r \<noteq> SNull)
        \<and> (list_all numbered items \<longrightarrow>
              map (\<lambda>r. episode_key (dict_episode r)) rows = map episode_key items)"
proof (induction items arbitrary: c)
  case Nil
  then show ?case by (auto intro: exI [of _ "[]"])
next
  case (Cons ep eps)
  from Cons.prems obtain ps c1 where p: "episode_params mid ep = Inr ps"
    and e: "execute (insert_tv_episode cv) cv ps c = Inr c1"
    and r: "insert_episodes cv mid eps c1 = (Inr u, c')"
    by (auto split: sum.splits)
  from episode_step [OF p e] obtain row where
    row: "txn c1 = (txn c)\<lparr>tv_episodes := tv_episodes (txn c) @ [row],
                        tv_episodes_seq := tv_episodes_seq (txn c) + 1\<rparr>"
      "ep_series_id row = SInt mid" "ep_season_number row \<noteq> SNull"
      "ep_episode_number row \<noteq> SNull" "ep_video_link row \<noteq> SNull"
      "numbered ep \<longrightarrow> episode_key (dict_episode row) = episode_key ep"
    by blast
  from Cons.IH [OF r] obtain rows where
    rows: "txn c' = (txn c1)\<lparr>tv_episodes := tv_episodes (txn c1) @ rows,
                   tv_episodes_seq := tv_episodes_seq (txn c1) + int (length rows)\<rparr>"
      "length rows = length eps"
      "\<forall>r\<in>set rows. ep_series_id r = SInt mid
              \<and> ep_season_number r \<noteq> SNull \<and> ep_episode_number r \<noteq> SNull
              \<and> ep_video_link r \<noteq> SNull"
      "list_all numbered eps \<longrightarrow>
              map (\<lambda>r. episode_key (dict_episode r)) rows = map episode_key eps"
    by blast
  show ?case
    by (rule exI [of _ "row # rows"]) (use row rows in simp)
qed

lemma insert_links_Inr:
  "insert_links cv mid items c = (Inr u, c') \<Longrightarrow>
   \<exists>rows. txn c' = (txn c)\<lparr>movie_links := movie_links (txn c) @ rows,
                   movie_links_seq := movie_links_seq (txn c) + int (length rows)\<rparr>
        \<and> length rows = length items
        \<and> (\<forall>r\<in>set rows. ml_movie_id r = SInt mid)
        \<and> (list_all valid_link items \<longrightarrow> map dict_link rows = map link_pair items)"
proof (induction items arbitrary: c)
  case Nil
  then show ?case by (auto intro: exI [of _ "[]"])
next
  case (Cons link links)
  from Cons.prems obtain ps c1 where p: "link_params mid link = Inr ps"
    and e: "execute (insert_movie_link cv) cv ps c = Inr c1"
    and r: "insert_links cv mid links c1 = (Inr u, c')"
    by (auto split: sum.splits)
  from link_step [OF p e] obtain row where
    row: "txn c1 = (txn c)\<lparr>movie_links := movie_links (txn c) @ [row],
                        movie_links_seq := movie_links_seq (txn c) + 1\<rparr>"
      "ml_movie_id row = SInt mid"
      "valid_link link \<longrightarrow> dict_link row = link_pair link"
    by blast
  from Cons.IH [OF r] obtain rows where
    rows: "txn c' = (txn c1)\<lparr>movie_links := movie_links (txn c1) @ rows,
                   movie_links_seq := movie_links_seq (txn c1) + int (length rows)\<rparr>"
      "length rows = length links"
      "\<forall>r\<in>set rows. ml_movie_id r = SInt mid"
      "list_all valid_link links \<longrightarrow> map dict_link rows = map link_pair links"
    by blast
  show ?case
    by (rule exI [of _ "row # rows"]) (use row rows in simp)
qed

lemma get_db_sel: "txn (get_db d) = d" "stored (get_db d) = d"
  by (simp_all add: get_db_def)

lemma add_episodes_cases:
  assumes "add_episodes cv d mid (JArr eps) = (r, d')"
  shows "d' = d \<or>
     (r = Response 201 (JObj [(''message'',
             JStr (str_nat (length eps) @ '' episodes added successfully''))])
      \<and> (\<exists>rows. d' = d\<lparr>tv_episodes := tv_episodes d @ rows,
                   tv_episodes_seq := tv_episodes_seq d + int (length rows)\<rparr>
        \<and> length rows = length eps
        \<and> (\<forall>r\<in>set rows. ep_series_id r = SInt mid
              \<and> ep_season_number r \<noteq> SNull \<and> ep_episode_number r \<noteq> SNull
              \<and> ep_video_link r \<noteq> SNull)))"
proof (cases "int64 mid")
  case False
  with assms show ?thesis
    by (simp add: add_episodes_def with_conn_def add_episodes_body_def get_db_def
        rollback_def)
next
  case fits: True
  show ?thesis
  proof (cases "select_media d mid")
    case None
    with fits assms show ?thesis
      by (simp add: add_episodes_def with_conn_def add_episodes_body_def get_db_def
          commit_def)
  next
    case (Some m)
    show ?thesis
    proof (cases "m_type m = SText ''tvseries''")
      case False
      with fits Some assms show ?thesis
        by (simp add: add_episodes_def with_conn_def add_episodes_body_def get_db_def
            commit_def)
    next
      case True
      obtain res c' where loop: "insert_episodes cv mid eps (get_db d) = (res, c')"
        by (cases "insert_episodes cv mid eps (get_db d)")
      have st: "stored c' = d"
        using insert_episodes_stored [OF loop] by (simp add: get_db_sel)
      show ?thesis
      proof (cases res)
        case (Inl e)
        with fits Some True loop st assms show ?thesis
          by (simp add: add_episodes_def with_conn_def add_episodes_body_def rollback_def
              get_db_sel)
      next
        case (Inr u)
        from insert_episodes_Inr [OF loop [unfolded Inr]] obtain rows where
          rows: "txn c' = d\<lparr>tv_episodes := tv_episodes d @ rows,
                     tv_episodes_seq := tv_episodes_seq d + int (length rows)\<rparr>"
            "length rows = length eps"
            "\<forall>r\<in>set rows. ep_series_id r = SInt mid
                \<and> ep_season_number r \<noteq> SNull \<and> ep_episode_number r \<noteq> SNull
                \<and> ep_video_link r \<noteq> SNull"
          by (auto simp: get_db_sel)
        from fits Some True loop Inr assms have "d' = txn c'"
          and "r = Response 201 (JObj [(''message'',
               JStr (str_nat (length eps) @ '' episodes added successfully''))])"
          by (simp_all add: add_episodes_def with_conn_def add_episodes_body_def commit_def
              get_db_sel)
        with rows show ?thesis by blast
      qed
    qed
  qed
qed

section \<open>Adding episodes\<close>

text \<open>
  Claim C10. Whatever its answer, \<open>POST /admin/media/<id>/episodes\<close> leaves the
  \<open>media\<close> table and the \<open>movie_links\<close> table, with their sequences, exactly as they
  were: it creates, changes and deletes no media row and no movie link.
\<close>

theorem add_episodes_frame:
  "media (snd (add_episodes cv d media_id data)) = media d
   \<and> media_seq (snd (add_episodes cv d media_id data)) = media_seq d
   \<and> movie_links (snd (add_episodes cv d media_id data)) = movie_links d
   \<and> movie_links_seq (snd (add_episodes cv d media_id data)) = movie_links_seq d"
proof (cases "\<exists>eps. data = JArr eps")
  case True
  then obtain eps where data: "data = JArr eps" ..
  obtain r d' where res: "add_episodes cv d media_id (JArr eps) = (r, d')"
    by (cases "add_episodes cv d media_id (JArr eps)")
  from add_episodes_cases [OF res] res data show ?thesis by auto
next
  case False
  then have "add_episodes cv d media_id data
      = (Response 400 (error_body ''Expected array of episodes''), d)"
    by (cases data) (simp_all add: add_episodes_def)
  then show ?thesis by simp
qed

theorem add_episodes_frame_witness:
  "media (snd (add_episodes engine0 series_db 1
      (JArr [JObj [(''season_number'', JInt 1), (''episode_number'', JInt 1),
                   (''video_link'', JStr ''http://a'')]]))) = media series_db
   \<and> movie_links (snd (add_episodes engine0 series_db 1
      (JArr [JObj [(''season_number'', JInt 1), (''episode_number'', JInt 1),
                   (''video_link'', JStr ''http://a'')]]))) = []"
  using add_episodes_frame [of engine0 series_db 1
      "JArr [JObj [(''season_number'', JInt 1), (''episode_number'', JInt 1),
                   (''video_link'', JStr ''http://a'')]]"]
  by (simp add: series_db_eq)




text \<open>
  Claim C7, as stated, asks that an empty array be rejected. The view has no such
  check: on a series, the empty array is answered 201 with the count 0.
\<close>

theorem add_episodes_empty_array_accepted:
  "add_episodes engine0 series_db 1 (JArr [])
     = (Response 201 (JObj [(''message'', JStr ''0 episodes added successfully'')]),
        series_db)"
  by (simp add: series_db_eq view_defs str_nat.simps)

text \<open>
  Claim C7, amended. A body that is not an array is answered 400 \<open>Expected array of
  episodes\<close> and changes nothing. An empty array is not rejected: for an existing
  series (its id, like every id the database gives out, fits 64 bits) it is answered
  201 with the count 0, and nothing is inserted. Whenever the answer is 201, its
  message carries the number of episodes supplied, and that many rows have been
  appended to \<open>tv_episodes\<close>.
\<close>

theorem add_episodes_array:
  "((\<forall>eps. data \<noteq> JArr eps) \<longrightarrow>
      add_episodes cv d media_id data
        = (Response 400 (error_body ''Expected array of episodes''), d))
   \<and> (int64 media_id \<and> select_media d media_id = Some m
        \<and> m_type m = SText ''tvseries'' \<longrightarrow>
      add_episodes cv d media_id (JArr [])
        = (Response 201 (JObj [(''message'', JStr ''0 episodes added successfully'')]), d))
   \<and> (status (fst (add_episodes cv d media_id (JArr episodes))) = 201 \<longrightarrow>
      fst (add_episodes cv d media_id (JArr episodes))
        = Response 201 (JObj [(''message'',
            JStr (str_nat (length episodes) @ '' episodes added successfully''))])
      \<and> (\<exists>rows. length rows = length episodes
            \<and> tv_episodes (snd (add_episodes cv d media_id (JArr episodes)))
                = tv_episodes d @ rows))"
proof (intro conjI impI)
  assume "\<forall>eps. data \<noteq> JArr eps"
  then show "add_episodes cv d media_id data
        = (Response 400 (error_body ''Expected array of episodes''), d)"
    by (cases data) (simp_all add: add_episodes_def)
next
  assume "int64 media_id \<and> select_media d media_id = Some m
      \<and> m_type m = SText ''tvseries''"
  then show "add_episodes cv d media_id (JArr [])
        = (Response 201 (JObj [(''message'', JStr ''0 episodes added successfully'')]), d)"
    by (simp add: add_episodes_def with_conn_def add_episodes_body_def get_db_sel
        commit_def get_db_def str_nat.simps)
next
  assume ok: "status (fst (add_episodes cv d media_id (JArr episodes))) = 201"
  obtain r d' where res: "add_episodes cv d media_id (JArr episodes) = (r, d')"
    by (cases "add_episodes cv d media_id (JArr episodes)")
  have fits: "int64 media_id"
  proof (rule ccontr)
    assume "\<not> int64 media_id"
    with res ok show False
      by (auto simp: add_episodes_def with_conn_def add_episodes_body_def)
  qed
  have r: "r = Response 201 (JObj [(''message'',
            JStr (str_nat (length episodes) @ '' episodes added successfully''))])"
    using ok res fits
    by (auto simp: add_episodes_def with_conn_def add_episodes_body_def
        error_body_def split: option.splits if_splits prod.splits sum.splits)
  show "fst (add_episodes cv d media_id (JArr episodes))
        = Response 201 (JObj [(''message'',
            JStr (str_nat (length episodes) @ '' episodes added successfully''))])"
    using r res by simp
  have "\<exists>rows. length rows = length episodes \<and> tv_episodes d' = tv_episodes d @ rows"
  proof (cases "select_media d media_id")
    case None
    with res ok fits show ?thesis
      by (auto simp: add_episodes_def with_conn_def add_episodes_body_def get_db_sel
          error_body_def)
  next
    case (Some m')
    show ?thesis
    proof (cases "m_type m' = SText ''tvseries''")
      case False
      with Some res ok fits show ?thesis
        by (auto simp: add_episodes_def with_conn_def add_episodes_body_def get_db_sel
            error_body_def)
    next
      case True
      obtain out c' where loop: "insert_episodes cv media_id episodes (get_db d) = (out, c')"
        by (cases "insert_episodes cv media_id episodes (get_db d)")
      show ?thesis
      proof (cases out)
        case (Inl e)
        with Some True loop res ok fits show ?thesis
          by (auto simp: add_episodes_def with_conn_def add_episodes_body_def get_db_sel)
      next
        case (Inr u)
        from insert_episodes_Inr [OF loop [unfolded Inr]] obtain rows where
          rows: "txn c' = d\<lparr>tv_episodes := tv_episodes d @ rows,
                   tv_episodes_seq := tv_episodes_seq d + int (length rows)\<rparr>"
            "length rows = length episodes"
          by (auto simp: get_db_sel)
        from Some True loop Inr res fits have "d' = txn c'"
          by (simp add: add_episodes_def with_conn_def add_episodes_body_def commit_def
              get_db_sel)
        with rows show ?thesis by auto
      qed
    qed
  qed
  with res show "\<exists>rows. length rows = length episodes
            \<and> tv_episodes (snd (add_episodes cv d media_id (JArr episodes)))
                = tv_episodes d @ rows"
    by simp
qed

theorem add_episodes_array_witness:
  "add_episodes engine0 series_db 1 (JStr ''episodes'')
     = (Response 400 (error_body ''Expected array of episodes''), series_db)
   \<and> add_episodes engine0 series_db 1 (JArr [])
     = (Response 201 (JObj [(''message'', JStr ''0 episodes added successfully'')]),
        series_db)
   \<and> fst (add_episodes engine0 series_db 1
        (JArr [JObj [(''season_number'', JInt 1), (''episode_number'', JInt 1),
                     (''video_link'', JStr ''http://a'')]]))
     = Response 201 (JObj [(''message'', JStr ''1 episodes added successfully'')])"
proof -
  let ?ep = "JObj [(''season_number'', JInt 1), (''episode_number'', JInt 1),
                   (''video_link'', JStr ''http://a'')] :: unit json"
  have not_array: "\<forall>eps. (JStr ''episodes'' :: unit json) \<noteq> JArr eps"
    by simp
  have series: "int64 1 \<and> select_media series_db 1 = Some (hd (media series_db))
      \<and> m_type (hd (media series_db)) = SText ''tvseries''"
    by (simp add: series_db_eq select_media_def int64_def)
  have created: "status (fst (add_episodes engine0 series_db 1 (JArr [?ep]))) = 201"
    by (simp add: series_db_eq engine0_def view_defs)
  have count: "str_nat (length [?ep]) = ''1''"
    by (simp add: str_nat.simps)
  show ?thesis
    using not_array series created count
      add_episodes_array [of "JStr ''episodes''" engine0 series_db 1
        "hd (media series_db)" "[?ep]"]
    by simp
qed

section \<open>Creating a media: the transaction\<close>

lemma media_params_Inr:
  "media_params data = Inr ps \<Longrightarrow>
   \<exists>kvs ty ti th de re. data = JObj kvs \<and> map_of kvs ''type'' = Some ty
     \<and> map_of kvs ''title'' = Some ti \<and> ps = [ty, ti, th, de, re]"
  by (cases data) (auto simp: media_params_def split: sum.splits option.splits)

lemma insert_media5:
  assumes "insert_media cv now [ty, ti, th, de, re] d = Inr (rid, d')"
  shows "\<exists>m. d' = d\<lparr>media := media d @ [m], media_seq := media_seq d + 1\<rparr>
           \<and> rid = media_seq d + 1 \<and> m_id m = media_seq d + 1
           \<and> m_type m = affinity_text cv ty \<and> m_title m = affinity_text cv ti"
  using assms by (auto simp: Let_def split: if_splits)

lemma media_step:
  assumes p: "media_params data = Inr ps"
    and e: "execute (insert_media cv now) cv ps c = Inr c1"
  shows "\<exists>m. txn c1 = (txn c)\<lparr>media := media (txn c) @ [m],
                              media_seq := media_seq (txn c) + 1\<rparr>
           \<and> stored c1 = stored c
           \<and> lastrowid c1 = media_seq (txn c) + 1
           \<and> m_id m = media_seq (txn c) + 1
           \<and> (\<forall>t. py_getitem data ''type'' = Inr (JStr t) \<longrightarrow> m_type m = SText t)
           \<and> (\<forall>t. py_getitem data ''title'' = Inr (JStr t) \<longrightarrow> m_title m = SText t)"
proof -
  from media_params_Inr [OF p] obtain kvs ty ti th de re where
    data: "data = JObj kvs" and ty: "map_of kvs ''type'' = Some ty"
    and ti: "map_of kvs ''title'' = Some ti" and ps: "ps = [ty, ti, th, de, re]"
    by blast
  from e obtain vs rid d' where b: "bind_params cv ps = Inr vs"
    and i: "insert_media cv now vs (txn c) = Inr (rid, d')"
    and c1: "c1 = c\<lparr>txn := d', lastrowid := rid\<rparr>"
    by (auto simp: execute_def split: sum.splits prod.splits)
  from bind_params5 [OF b [unfolded ps]] obtain ty' ti' th' de' re' where
    vs: "vs = [ty', ti', th', de', re']" and ty': "bind_param cv ty = Inr ty'"
    and ti': "bind_param cv ti = Inr ti'"
    by blast
  from insert_media5 [OF i [unfolded vs]] obtain m where
    m: "d' = (txn c)\<lparr>media := media (txn c) @ [m], media_seq := media_seq (txn c) + 1\<rparr>"
      "rid = media_seq (txn c) + 1" "m_id m = media_seq (txn c) + 1"
      "m_type m = affinity_text cv ty'" "m_title m = affinity_text cv ti'"
    by blast
  from m c1 data ty ti ty' ti' show ?thesis
    by (intro exI [of _ m]) auto
qed

lemma for_each_links:
  assumes "for_each data ''video_links'' (insert_links cv mid) c = (res, c')"
  shows "stored c' = stored c \<and>
    (\<forall>u. res = Inr u \<longrightarrow>
      (\<exists>rows. txn c' = (txn c)\<lparr>movie_links := movie_links (txn c) @ rows,
                   movie_links_seq := movie_links_seq (txn c) + int (length rows)\<rparr>
        \<and> length rows = length (supplied data ''video_links'')
        \<and> (\<forall>r\<in>set rows. ml_movie_id r = SInt mid)
        \<and> (list_all valid_link (supplied data ''video_links'') \<longrightarrow>
              map dict_link rows = map link_pair (supplied data ''video_links''))))"
proof (cases "py_getitem data ''video_links''")
  case (Inl e)
  with assms show ?thesis by (auto simp: for_each_def)
next
  case v: (Inr v)
  show ?thesis
  proof (cases "py_iter v")
    case (Inl e)
    with v assms show ?thesis by (auto simp: for_each_def)
  next
    case (Inr items)
    with v assms have loop: "insert_links cv mid items c = (res, c')"
      and sup: "supplied data ''video_links'' = items"
      by (simp_all add: for_each_def supplied_def)
    from insert_links_stored [OF loop] insert_links_Inr [of cv mid items c _ c'] loop sup
    show ?thesis by auto
  qed
qed

lemma for_each_episodes:
  assumes "for_each data ''episodes'' (insert_episodes cv mid) c = (res, c')"
  shows "stored c' = stored c \<and>
    (\<forall>u. res = Inr u \<longrightarrow>
      (\<exists>rows. txn c' = (txn c)\<lparr>tv_episodes := tv_episodes (txn c) @ rows,
                   tv_episodes_seq := tv_episodes_seq (txn c) + int (length rows)\<rparr>
        \<and> length rows = length (supplied data ''episodes'')
        \<and> (\<forall>r\<in>set rows. ep_series_id r = SInt mid
              \<and> ep_season_number r \<noteq> SNull \<and> ep_episode_number r \<noteq> SNull
              \<and> ep_video_link r \<noteq> SNull)
        \<and> (list_all numbered (supplied data ''episodes'') \<longrightarrow>
              map (\<lambda>r. episode_key (dict_episode r)) rows
                = map episode_key (supplied data ''episodes''))))"
proof (cases "py_getitem data ''episodes''")
  case (Inl e)
  with assms show ?thesis by (auto simp: for_each_def)
next
  case v: (Inr v)
  show ?thesis
  proof (cases "py_iter v")
    case (Inl e)
    with v assms show ?thesis by (auto simp: for_each_def)
  next
    case (Inr items)
    with v assms have loop: "insert_episodes cv mid items c = (res, c')"
      and sup: "supplied data ''episodes'' = items"
      by (simp_all add: for_each_def supplied_def)
    from insert_episodes_stored [OF loop] insert_episodes_Inr [of cv mid items c _ c'] loop sup
    show ?thesis by auto
  qed
qed

lemma supplied_absent:
  "py_in key data = Inr False \<Longrightarrow> py_getitem data ''type'' = Inr ty \<Longrightarrow> supplied data key = []"
proof -
  assume a: "py_in key data = Inr False" and t: "py_getitem data ''type'' = Inr ty"
  from t obtain kvs where data: "data = JObj kvs" by (cases data) auto
  with a have "key \<notin> fst ` set kvs" by simp
  then have "map_of kvs key = None" by (simp add: map_of_eq_None_iff)
  with data show ?thesis by (simp add: supplied_def)
qed

lemma insert_children_cases:
  assumes ic: "insert_children cv mid data c = (res, c')"
    and ty: "py_getitem data ''type'' = Inr ty"
  shows "stored c' = stored c \<and>
    (\<forall>u. res = Inr u \<longrightarrow>
      (\<exists>ls es. txn c' = (txn c)\<lparr>tv_episodes := tv_episodes (txn c) @ es,
                   tv_episodes_seq := tv_episodes_seq (txn c) + int (length es),
                   movie_links := movie_links (txn c) @ ls,
                   movie_links_seq := movie_links_seq (txn c) + int (length ls)\<rparr>
        \<and> children_of data mid ty ls es))"
proof -
  obtain kvs where data: "data = JObj kvs"
    using ty by (cases data) auto
  have inl: "\<And>k. py_in k data = Inr (k \<in> fst ` set kvs)"
    by (simp add: data)
  consider (links) "ty = JStr ''movie''" "''video_links'' \<in> fst ` set kvs"
    | (episodes) "ty = JStr ''tvseries''" "''episodes'' \<in> fst ` set kvs"
    | (none) "ty = JStr ''movie'' \<longrightarrow> ''video_links'' \<notin> fst ` set kvs"
        "ty = JStr ''tvseries'' \<longrightarrow> ''episodes'' \<notin> fst ` set kvs"
    by blast
  then show ?thesis
  proof cases
    case links
    with ic ty inl have "for_each data ''video_links'' (insert_links cv mid) c = (res, c')"
      by (simp add: insert_children_def type_and_key_def)
    from for_each_links [OF this] links show ?thesis
      by (auto simp: children_of_def intro!: exI [of _ "[]"])
  next
    case episodes
    with ic ty inl have "for_each data ''episodes'' (insert_episodes cv mid) c = (res, c')"
      by (simp add: insert_children_def type_and_key_def)
    from for_each_episodes [OF this] episodes show ?thesis
      by (auto simp: children_of_def intro!: exI [of _ "[]"])
  next
    case none
    have "ty = JStr ''movie'' \<Longrightarrow> supplied data ''video_links'' = []"
      using none(1) ty inl by (auto intro: supplied_absent)
    moreover have "ty = JStr ''tvseries'' \<Longrightarrow> supplied data ''episodes'' = []"
      using none(2) ty inl by (auto intro: supplied_absent)
    moreover from none ic ty inl have "res = Inr ()" "c' = c"
      by (auto simp: insert_children_def type_and_key_def split: if_splits)
    ultimately show ?thesis
      by (auto simp: children_of_def intro!: exI [of _ "[]"])
  qed
qed

lemma add_media_cases:
  assumes req: "has_required data = Inr True"
    and ty: "py_getitem data ''type'' = Inr ty"
    and ok: "ty = JStr ''movie'' \<or> ty = JStr ''tvseries''"
    and res: "add_media cv now d data = (r, d')"
  shows "(\<exists>e. r = Caught e \<and> d' = d)
    \<or> (\<exists>m ls es.
         r = Response 201 (JObj [(''message'', JStr ''Media added successfully''),
                                 (''id'', JInt (m_id m))])
         \<and> m_id m = media_seq d + 1 \<and> to_json (m_type m) = ty
         \<and> d' = d\<lparr>media := media d @ [m], media_seq := media_seq d + 1,
                  tv_episodes := tv_episodes d @ es,
                  tv_episodes_seq := tv_episodes_seq d + int (length es),
                  movie_links := movie_links d @ ls,
                  movie_links_seq := movie_links_seq d + int (length ls)\<rparr>
         \<and> children_of data (m_id m) ty ls es)"
proof -
  obtain out c' where body: "add_media_body cv now data (get_db d) = (out, c')"
    by (cases "add_media_body cv now data (get_db d)")
  have r: "(r, d') = (case out of Inl e \<Rightarrow> (Caught e, stored (rollback c'))
                      | Inr x \<Rightarrow> (x, stored (commit c')))"
    using req ty ok res body
    by (auto simp: add_media_def with_conn_def split: sum.splits)
  show ?thesis
  proof (cases "media_params data")
    case (Inl e)
    with body r show ?thesis
      by (auto simp: add_media_body_def rollback_def get_db_sel)
  next
    case ps: (Inr ps)
    show ?thesis
    proof (cases "execute (insert_media cv now) cv ps (get_db d)")
      case (Inl e)
      with ps body r show ?thesis
        by (auto simp: add_media_body_def rollback_def get_db_sel)
    next
      case c1: (Inr c1)
      from media_step [OF ps c1] obtain m where
        m: "txn c1 = d\<lparr>media := media d @ [m], media_seq := media_seq d + 1\<rparr>"
          "stored c1 = d" "lastrowid c1 = media_seq d + 1" "m_id m = media_seq d + 1"
          "\<forall>t. py_getitem data ''type'' = Inr (JStr t) \<longrightarrow> m_type m = SText t"
        by (auto simp: get_db_sel)
      obtain res2 c2 where ic: "insert_children cv (lastrowid c1) data c1 = (res2, c2)"
        by (cases "insert_children cv (lastrowid c1) data c1")
      from insert_children_cases [OF ic ty] have st: "stored c2 = d"
        and ch: "\<forall>u. res2 = Inr u \<longrightarrow>
          (\<exists>ls es. txn c2 = (txn c1)\<lparr>tv_episodes := tv_episodes (txn c1) @ es,
                   tv_episodes_seq := tv_episodes_seq (txn c1) + int (length es),
                   movie_links := movie_links (txn c1) @ ls,
                   movie_links_seq := movie_links_seq (txn c1) + int (length ls)\<rparr>
            \<and> children_of data (lastrowid c1) ty ls es)"
        using m(2) by auto
      show ?thesis
      proof (cases res2)
        case (Inl e)
        with ps c1 ic body have "out = Inl e" "c' = c2"
          by (auto simp: add_media_body_def)
        with r st show ?thesis by (simp add: rollback_def)
      next
        case (Inr u)
        with ps c1 ic body have out: "out = Inr (Response 201
              (JObj [(''message'', JStr ''Media added successfully''),
                     (''id'', JInt (lastrowid c1))]))"
          and c': "c' = commit c2"
          by (auto simp: add_media_body_def)
        from ch Inr obtain ls es where
          t2: "txn c2 = (txn c1)\<lparr>tv_episodes := tv_episodes (txn c1) @ es,
                   tv_episodes_seq := tv_episodes_seq (txn c1) + int (length es),
                   movie_links := movie_links (txn c1) @ ls,
                   movie_links_seq := movie_links_seq (txn c1) + int (length ls)\<rparr>"
          and co: "children_of data (lastrowid c1) ty ls es"
          by blast
        from r out c' have "r = Response 201
              (JObj [(''message'', JStr ''Media added successfully''),
                     (''id'', JInt (lastrowid c1))])" and "d' = txn c2"
          by (simp_all add: commit_def)
        moreover from ok ty m(5) have "to_json (m_type m) = ty" by auto
        ultimately show ?thesis
          using m t2 co by (intro disjI2 exI [of _ m] exI [of _ ls] exI [of _ es]) simp
      qed
    qed
  qed
qed

lemma add_media_unchanged:
  assumes "add_media cv now d data = (r, d')" and "d' \<noteq> d"
  shows "has_required data = Inr True
    \<and> (py_getitem data ''type'' = Inr (JStr ''movie'')
       \<or> py_getitem data ''type'' = Inr (JStr ''tvseries''))"
  using assms
  by (auto simp: add_media_def split: sum.splits bool.splits if_splits)

text \<open>
  Claim C1. A body of \<open>POST /admin/media\<close> that passes the check of \<open>type\<close> and
  \<open>title\<close> has one of two outcomes. Either the answer is 500 and the database is
  exactly as before: no media row and no child row of the request is persisted. Or
  the answer is 201 and the database has gained, together, the media row with the next
  id and one child row for every item supplied under the key that matches the type
  (\<open>video_links\<close> for a movie, \<open>episodes\<close> for a series), each owned by the new
  media; nothing else has changed. A batch in which one insert fails is therefore
  lost as a whole.
\<close>

theorem add_media_atomic:
  assumes "has_required data = Inr True"
    and "py_getitem data ''type'' = Inr ty"
    and "ty = JStr ''movie'' \<or> ty = JStr ''tvseries''"
    and "add_media cv now d data = (r, d')"
  shows "(status r = 500 \<and> d' = d)
    \<or> (status r = 201
       \<and> (\<exists>m ls es.
            d' = d\<lparr>media := media d @ [m], media_seq := media_seq d + 1,
                   tv_episodes := tv_episodes d @ es,
                   tv_episodes_seq := tv_episodes_seq d + int (length es),
                   movie_links := movie_links d @ ls,
                   movie_links_seq := movie_links_seq d + int (length ls)\<rparr>
            \<and> m_id m = media_seq d + 1
            \<and> length ls
                = (if ty = JStr ''movie'' then length (supplied data ''video_links'') else 0)
            \<and> length es
                = (if ty = JStr ''tvseries'' then length (supplied data ''episodes'') else 0)
            \<and> (\<forall>l\<in>set ls. ml_movie_id l = SInt (m_id m))
            \<and> (\<forall>e\<in>set es. ep_series_id e = SInt (m_id m))))"
proof -
  from add_media_cases [OF assms] show ?thesis
  proof (elim disjE exE conjE)
    fix e assume "r = Caught e" "d' = d"
    then show ?thesis by simp
  next
    fix m ls es
    assume r: "r = Response 201 (JObj [(''message'', JStr ''Media added successfully''),
                                 (''id'', JInt (m_id m))])"
      and m: "m_id m = media_seq d + 1"
      and d': "d' = d\<lparr>media := media d @ [m], media_seq := media_seq d + 1,
                  tv_episodes := tv_episodes d @ es,
                  tv_episodes_seq := tv_episodes_seq d + int (length es),
                  movie_links := movie_links d @ ls,
                  movie_links_seq := movie_links_seq d + int (length ls)\<rparr>"
      and co: "children_of data (m_id m) ty ls es"
    from r have "status r = 201" by simp
    moreover from co have "length ls
                = (if ty = JStr ''movie'' then length (supplied data ''video_links'') else 0)"
      "length es
                = (if ty = JStr ''tvseries'' then length (supplied data ''episodes'') else 0)"
      "\<forall>l\<in>set ls. ml_movie_id l = SInt (m_id m)"
      "\<forall>e\<in>set es. ep_series_id e = SInt (m_id m)"
      by (simp_all add: children_of_def)
    ultimately show ?thesis using m d' by blast
  qed
qed

theorem add_media_atomic_witness:
  "status (fst (add_media engine0 ''2024-01-01 00:00:00'' series_db batch_payload)) = 500
   \<and> snd (add_media engine0 ''2024-01-01 00:00:00'' series_db batch_payload) = series_db"
proof -
  have req: "has_required batch_payload = Inr True"
    by (simp add: batch_payload_def has_required_def)
  have ty: "py_getitem batch_payload ''type'' = Inr (JStr ''tvseries'')"
    by (simp add: batch_payload_def)
  obtain r d' where
    res: "add_media engine0 ''2024-01-01 00:00:00'' series_db batch_payload = (r, d')"
    by (cases "add_media engine0 ''2024-01-01 00:00:00'' series_db batch_payload")
  have "status r \<noteq> 201"
    using res by (auto simp: batch_payload_def series_db_eq engine0_def view_defs)
  with add_media_atomic [OF req ty _ res] res show ?thesis by auto
qed

section \<open>Children without a required field\<close>

lemma omits_episode_params:
  "omits [''season_number'', ''episode_number'', ''video_link''] ep \<Longrightarrow>
   \<exists>e. episode_params mid ep = Inl e"
  by (cases ep)
    (auto simp: episode_params_def map_of_eq_None_iff [symmetric] split: sum.splits option.splits)

lemma omits_link_params:
  "omits [''video_link''] link \<Longrightarrow> \<exists>e. link_params mid link = Inl e"
  by (cases link)
    (auto simp: link_params_def map_of_eq_None_iff [symmetric] split: sum.splits option.splits)

lemma insert_episodes_omits:
  "\<exists>ep\<in>set eps. omits [''season_number'', ''episode_number'', ''video_link''] ep \<Longrightarrow>
   \<exists>e c'. insert_episodes cv mid eps c = (Inl e, c')"
proof (induction eps arbitrary: c)
  case Nil
  then show ?case by simp
next
  case (Cons ep eps)
  show ?case
  proof (cases "omits [''season_number'', ''episode_number'', ''video_link''] ep")
    case True
    from omits_episode_params [OF this, of mid] show ?thesis by auto
  next
    case False
    with Cons.prems have
      "\<exists>ep\<in>set eps. omits [''season_number'', ''episode_number'', ''video_link''] ep"
      by simp
    from Cons.IH [OF this] show ?thesis
      by (auto split: sum.splits)
  qed
qed

lemma insert_links_omits:
  "\<exists>link\<in>set links. omits [''video_link''] link \<Longrightarrow>
   \<exists>e c'. insert_links cv mid links c = (Inl e, c')"
proof (induction links arbitrary: c)
  case Nil
  then show ?case by simp
next
  case (Cons link links)
  show ?case
  proof (cases "omits [''video_link''] link")
    case True
    from omits_link_params [OF this, of mid] show ?thesis by auto
  next
    case False
    with Cons.prems have "\<exists>link\<in>set links. omits [''video_link''] link"
      by simp
    from Cons.IH [OF this] show ?thesis
      by (auto split: sum.splits)
  qed
qed

lemma add_media_created:
  assumes "add_media cv now d data = (r, d')" and "status r = 201"
  shows "\<exists>mid c u c'. insert_children cv mid data c = (Inr u, c')"
  using assms
  by (auto simp: add_media_def with_conn_def add_media_body_def error_body_def Let_def
      split: sum.splits bool.splits if_splits prod.splits)

lemma insert_children_omits:
  assumes "map_of kvs ''type'' = Some (JStr ''tvseries'')"
    and "map_of kvs ''episodes'' = Some (JArr eps)"
    and "\<exists>ep\<in>set eps. omits [''season_number'', ''episode_number'', ''video_link''] ep"
  shows "\<exists>e c'. insert_children cv mid (JObj kvs) c = (Inl e, c')"
proof -
  from assms(2) have "''episodes'' \<in> fst ` set kvs"
    by (metis map_of_eq_None_iff option.distinct(1))
  with assms(1,2) insert_episodes_omits [OF assms(3), of cv mid c] show ?thesis
    by (auto simp: insert_children_def type_and_key_def for_each_def)
qed

lemma insert_children_omits_link:
  assumes "map_of kvs ''type'' = Some (JStr ''movie'')"
    and "map_of kvs ''video_links'' = Some (JArr links)"
    and "\<exists>link\<in>set links. omits [''video_link''] link"
  shows "\<exists>e c'. insert_children cv mid (JObj kvs) c = (Inl e, c')"
proof -
  from assms(2) have "''video_links'' \<in> fst ` set kvs"
    by (metis map_of_eq_None_iff option.distinct(1))
  with assms(1,2) insert_links_omits [OF assms(3), of cv mid c] show ?thesis
    by (auto simp: insert_children_def type_and_key_def for_each_def)
qed

text \<open>
  Claim C2, as stated, asks for status 400 when an episode or a link lacks a required
  field. The views do not look at the items before inserting them: the missing key
  raises \<open>KeyError\<close> inside the \<open>try\<close>, and the handler answers 500.
\<close>

theorem missing_child_field_not_400:
  "fst (add_episodes engine0 series_db 1
      (JArr [JObj [(''season_number'', JInt 1), (''episode_number'', JInt 1)]]))
     = Caught (KeyError ''video_link'')
   \<and> status (fst (add_episodes engine0 series_db 1
      (JArr [JObj [(''season_number'', JInt 1), (''episode_number'', JInt 1)]]))) = 500"
  by (simp add: series_db_eq engine0_def view_defs)

text \<open>
  Claim C2, amended. When a request reaches the insert loop and one of the supplied
  objects lacks a required key, the request fails with status 500, not 400, and
  nothing is persisted. That is the case for \<open>add_episodes\<close> on an existing series
  with an array in which an episode lacks \<open>season_number\<close>, \<open>episode_number\<close> or
  \<open>video_link\<close>; for \<open>add_media\<close> with a validated \<open>tvseries\<close> body whose \<open>episodes\<close>
  array holds such an episode; and for \<open>add_media\<close> with a validated \<open>movie\<close> body
  whose \<open>video_links\<close> array holds a link without \<open>video_link\<close>.
\<close>

theorem missing_child_field:
  "(select_media d media_id = Some m \<and> m_type m = SText ''tvseries''
      \<and> (\<exists>ep\<in>set episodes. omits [''season_number'', ''episode_number'', ''video_link''] ep)
    \<longrightarrow> status (fst (add_episodes cv d media_id (JArr episodes))) = 500
        \<and> snd (add_episodes cv d media_id (JArr episodes)) = d)
   \<and> (has_required (JObj kvs) = Inr True \<and> map_of kvs ''type'' = Some (JStr ''tvseries'')
      \<and> map_of kvs ''episodes'' = Some (JArr episodes)
      \<and> (\<exists>ep\<in>set episodes. omits [''season_number'', ''episode_number'', ''video_link''] ep)
    \<longrightarrow> status (fst (add_media cv now d (JObj kvs))) = 500
        \<and> snd (add_media cv now d (JObj kvs)) = d)
   \<and> (has_required (JObj kvs) = Inr True \<and> map_of kvs ''type'' = Some (JStr ''movie'')
      \<and> map_of kvs ''video_links'' = Some (JArr links)
      \<and> (\<exists>link\<in>set links. omits [''video_link''] link)
    \<longrightarrow> status (fst (add_media cv now d (JObj kvs))) = 500
        \<and> snd (add_media cv now d (JObj kvs)) = d)"
  (is "(?A \<longrightarrow> ?A') \<and> (?B \<longrightarrow> ?B') \<and> (?C \<longrightarrow> ?C')")
proof -
  have a: "?A'" if "?A"
  proof -
    from that have m: "select_media d media_id = Some m" "m_type m = SText ''tvseries''"
      and bad: "\<exists>ep\<in>set episodes.
          omits [''season_number'', ''episode_number'', ''video_link''] ep"
      by simp_all
    from insert_episodes_omits [OF bad, of cv media_id "get_db d"] obtain e c' where
      loop: "insert_episodes cv media_id episodes (get_db d) = (Inl e, c')"
      by blast
    from insert_episodes_stored [OF loop] have "stored c' = d"
      by (simp add: get_db_sel)
    with m loop have "add_episodes cv d media_id (JArr episodes)
        = (Caught (if int64 media_id then e else OverflowError), d)"
      by (simp add: add_episodes_def with_conn_def add_episodes_body_def get_db_sel
          rollback_def)
    then show ?thesis by simp
  qed
  have b: "?B'" if "?B"
  proof -
    from that have req: "has_required (JObj kvs) = Inr True"
      and ty: "map_of kvs ''type'' = Some (JStr ''tvseries'')"
      and eps: "map_of kvs ''episodes'' = Some (JArr episodes)"
      and bad: "\<exists>ep\<in>set episodes.
          omits [''season_number'', ''episode_number'', ''video_link''] ep"
      by simp_all
    obtain r d' where res: "add_media cv now d (JObj kvs) = (r, d')"
      by (cases "add_media cv now d (JObj kvs)")
    from ty have ty': "py_getitem (JObj kvs) ''type'' = Inr (JStr ''tvseries'')" by simp
    have "status r \<noteq> 201"
    proof
      assume "status r = 201"
      from add_media_created [OF res this] obtain mid c u c' where
        "insert_children cv mid (JObj kvs) c = (Inr u, c')"
        by blast
      with insert_children_omits [OF ty eps bad, of cv mid c] show False
        by auto
    qed
    with add_media_cases [OF req ty' _ res] have "status r = 500 \<and> d' = d" by auto
    with res show ?thesis by simp
  qed
  have c: "?C'" if "?C"
  proof -
    from that have req: "has_required (JObj kvs) = Inr True"
      and ty: "map_of kvs ''type'' = Some (JStr ''movie'')"
      and ls: "map_of kvs ''video_links'' = Some (JArr links)"
      and bad: "\<exists>link\<in>set links. omits [''video_link''] link"
      by simp_all
    obtain r d' where res: "add_media cv now d (JObj kvs) = (r, d')"
      by (cases "add_media cv now d (JObj kvs)")
    from ty have ty': "py_getitem (JObj kvs) ''type'' = Inr (JStr ''movie'')" by simp
    have "status r \<noteq> 201"
    proof
      assume "status r = 201"
      from add_media_created [OF res this] obtain mid c u c' where
        "insert_children cv mid (JObj kvs) c = (Inr u, c')"
        by blast
      with insert_children_omits_link [OF ty ls bad, of cv mid c] show False
        by auto
    qed
    with add_media_cases [OF req ty' _ res] have "status r = 500 \<and> d' = d" by auto
    with res show ?thesis by simp
  qed
  from a b c show ?thesis by blast
qed

theorem missing_child_field_witness:
  "status (fst (add_episodes engine0 series_db 1
      (JArr [JObj [(''season_number'', JInt 1), (''episode_number'', JInt 1)]]))) = 500
   \<and> snd (add_episodes engine0 series_db 1
      (JArr [JObj [(''season_number'', JInt 1), (''episode_number'', JInt 1)]])) = series_db
   \<and> status (fst (add_media engine0 ''2024-01-01 00:00:00'' series_db batch_payload)) = 500
   \<and> snd (add_media engine0 ''2024-01-01 00:00:00'' series_db batch_payload) = series_db
   \<and> status (fst (add_media engine0 ''2024-01-01 00:00:00'' series_db linkless_payload)) = 500
   \<and> snd (add_media engine0 ''2024-01-01 00:00:00'' series_db linkless_payload) = series_db"
proof -
  let ?bad = "JObj [(''season_number'', JInt 1), (''episode_number'', JInt 1)] :: unit json"
  let ?late = "JObj [(''season_number'', JInt 1), (''episode_number'', JInt 2)] :: unit json"
  let ?good = "JObj [(''season_number'', JInt 1), (''episode_number'', JInt 1),
                     (''video_link'', JStr ''http://a'')] :: unit json"
  let ?series = "[(''type'', JStr ''tvseries''), (''title'', JStr ''S''),
                  (''episodes'', JArr [?good, ?late])]"
  let ?link = "JObj [(''resolution'', JStr ''720p'')] :: unit json"
  let ?movie = "[(''type'', JStr ''movie''), (''title'', JStr ''X''),
                 (''video_links'', JArr [?link])]"
  have a: "select_media series_db 1 = Some (hd (media series_db))
      \<and> m_type (hd (media series_db)) = SText ''tvseries''
      \<and> (\<exists>ep\<in>set [?bad]. omits [''season_number'', ''episode_number'', ''video_link''] ep)"
    by (simp add: series_db_eq select_media_def)
  have b: "has_required (JObj ?series) = Inr True
      \<and> map_of ?series ''type'' = Some (JStr ''tvseries'')
      \<and> map_of ?series ''episodes'' = Some (JArr [?good, ?late])
      \<and> (\<exists>ep\<in>set [?good, ?late].
            omits [''season_number'', ''episode_number'', ''video_link''] ep)"
    by (simp add: has_required_def)
  have c: "has_required (JObj ?movie) = Inr True
      \<and> map_of ?movie ''type'' = Some (JStr ''movie'')
      \<and> map_of ?movie ''video_links'' = Some (JArr [?link])
      \<and> (\<exists>link\<in>set [?link]. omits [''video_link''] link)"
    by (simp add: has_required_def)
  have "status (fst (add_episodes engine0 series_db 1 (JArr [?bad]))) = 500
      \<and> snd (add_episodes engine0 series_db 1 (JArr [?bad])) = series_db"
    by (rule mp [OF conjunct1 [OF missing_child_field [where d = series_db
      and media_id = 1 and m = "hd (media series_db)" and episodes = "[?bad]"
      and cv = engine0]] a])
  moreover have "status (fst (add_media engine0 ''2024-01-01 00:00:00'' series_db
        (JObj ?series))) = 500
      \<and> snd (add_media engine0 ''2024-01-01 00:00:00'' series_db (JObj ?series)) = series_db"
    by (rule mp [OF conjunct1 [OF conjunct2 [OF missing_child_field [where d = series_db
      and episodes = "[?good, ?late]" and cv = engine0 and kvs = ?series
      and now = "''2024-01-01 00:00:00''"]]] b])
  moreover have "status (fst (add_media engine0 ''2024-01-01 00:00:00'' series_db
        (JObj ?movie))) = 500
      \<and> snd (add_media engine0 ''2024-01-01 00:00:00'' series_db (JObj ?movie)) = series_db"
    by (rule mp [OF conjunct2 [OF conjunct2 [OF missing_child_field [where d = series_db
      and cv = engine0 and kvs = ?movie and now = "''2024-01-01 00:00:00''"
      and links = "[?link]"]]] c])
  ultimately show ?thesis
    unfolding batch_payload_def linkless_payload_def by simp
qed

section \<open>What every history keeps\<close>

text \<open>A write request leaves the database as it was, or adds one media row with its
  children, or adds episodes to a media that exists.\<close>

lemma serve_invariant:
  assumes "P init_db" and "\<And>d req. P d \<Longrightarrow> P (handle cv d req)"
  shows "P (serve cv history)"
  unfolding serve_def by (induction history rule: rev_induct) (simp_all add: assms)

lemma handle_cases:
  "handle cv d req = d
   \<or> (\<exists>m ls es ty data.
        handle cv d req = d\<lparr>media := media d @ [m], media_seq := media_seq d + 1,
                  tv_episodes := tv_episodes d @ es,
                  tv_episodes_seq := tv_episodes_seq d + int (length es),
                  movie_links := movie_links d @ ls,
                  movie_links_seq := movie_links_seq d + int (length ls)\<rparr>
        \<and> m_id m = media_seq d + 1 \<and> children_of data (m_id m) ty ls es)
   \<or> (\<exists>rows mid m.
        handle cv d req = d\<lparr>tv_episodes := tv_episodes d @ rows,
                   tv_episodes_seq := tv_episodes_seq d + int (length rows)\<rparr>
        \<and> select_media d mid = Some m
        \<and> (\<forall>r\<in>set rows. ep_series_id r = SInt mid
              \<and> ep_season_number r \<noteq> SNull \<and> ep_episode_number r \<noteq> SNull
              \<and> ep_video_link r \<noteq> SNull))"
proof (cases req)
  case (AddMedia now data)
  obtain r d' where res: "add_media cv now d data = (r, d')"
    by (cases "add_media cv now d data")
  show ?thesis
  proof (cases "d' = d")
    case True
    with res AddMedia show ?thesis by simp
  next
    case False
    from add_media_unchanged [OF res False] obtain ty where
      "has_required data = Inr True" "py_getitem data ''type'' = Inr ty"
      "ty = JStr ''movie'' \<or> ty = JStr ''tvseries''"
      by auto
    from add_media_cases [OF this res] False obtain m ls es where
      "d' = d\<lparr>media := media d @ [m], media_seq := media_seq d + 1,
                  tv_episodes := tv_episodes d @ es,
                  tv_episodes_seq := tv_episodes_seq d + int (length es),
                  movie_links := movie_links d @ ls,
                  movie_links_seq := movie_links_seq d + int (length ls)\<rparr>"
      "m_id m = media_seq d + 1" "children_of data (m_id m) ty ls es"
      by blast
    moreover from res AddMedia have "handle cv d req = d'" by simp
    ultimately show ?thesis by blast
  qed
next
  case (AddEpisodes mid data)
  show ?thesis
  proof (cases "\<exists>eps. data = JArr eps")
    case False
    then have "add_episodes cv d mid data
        = (Response 400 (error_body ''Expected array of episodes''), d)"
      by (cases data) (simp_all add: add_episodes_def)
    with AddEpisodes show ?thesis by simp
  next
    case True
    then obtain eps where data: "data = JArr eps" ..
    obtain r d' where res: "add_episodes cv d mid (JArr eps) = (r, d')"
      by (cases "add_episodes cv d mid (JArr eps)")
    show ?thesis
    proof (cases "d' = d")
      case True
      with res data AddEpisodes show ?thesis by simp
    next
      case False
      have "\<exists>m. select_media d mid = Some m"
        using res False
        by (cases "select_media d mid")
          (auto simp: add_episodes_def with_conn_def add_episodes_body_def get_db_sel
            commit_def rollback_def split: if_splits)
      then obtain m where m: "select_media d mid = Some m" ..
      from add_episodes_cases [OF res] False obtain rows where
        "d' = d\<lparr>tv_episodes := tv_episodes d @ rows,
                   tv_episodes_seq := tv_episodes_seq d + int (length rows)\<rparr>"
        "\<forall>r\<in>set rows. ep_series_id r = SInt mid
              \<and> ep_season_number r \<noteq> SNull \<and> ep_episode_number r \<noteq> SNull
              \<and> ep_video_link r \<noteq> SNull"
        by blast
      moreover from res data AddEpisodes have "handle cv d req = d'" by simp
      ultimately show ?thesis using m by blast
    qed
  qed
qed

text \<open>
  Claim C9, as stated, asks that every stored episode have a positive integer season
  and episode number. Neither the views nor the schema check the numbers: a batch
  with an episode numbered season 0, episode -1 and an episode whose season is the
  text \<open>one\<close> is answered 201, and both rows are stored, the second with a season
  that is no integer.
\<close>

theorem episode_numbers_unchecked:
  "add_episodes engine0 series_db 1 (JArr [unchecked_episode, unnumbered_episode])
     = (Response 201 (JObj [(''message'', JStr ''2 episodes added successfully'')]),
        series_db\<lparr>tv_episodes :=
            [\<lparr>ep_id = 1, ep_series_id = SInt 1, ep_season_number = SInt 0,
              ep_episode_number = SInt (- 1), ep_title = SNull,
              ep_video_link = SText ''http://a''\<rparr>,
             \<lparr>ep_id = 2, ep_series_id = SInt 1, ep_season_number = SText ''one'',
              ep_episode_number = SInt 1, ep_title = SNull,
              ep_video_link = SText ''http://b''\<rparr>],
          tv_episodes_seq := 2\<rparr>)"
  by (simp add: unchecked_episode_def unnumbered_episode_def series_db_eq engine0_def
      view_defs str_nat.simps)

text \<open>
  Claim C9, amended. After every history of write requests, every row of
  \<open>tv_episodes\<close> has a \<open>season_number\<close>, an \<open>episode_number\<close> and a \<open>video_link\<close>
  that are not NULL: that is what the schema's \<open>NOT NULL\<close> enforces. That the
  numbers are positive integers is not enforced, as the two rows above show.
\<close>

theorem episodes_never_null:
  "\<forall>r\<in>set (tv_episodes (serve cv history)).
      ep_season_number r \<noteq> SNull \<and> ep_episode_number r \<noteq> SNull
      \<and> ep_video_link r \<noteq> SNull"
proof (rule serve_invariant)
  show "\<forall>r\<in>set (tv_episodes (init_db :: 'a db)).
      ep_season_number r \<noteq> SNull \<and> ep_episode_number r \<noteq> SNull
      \<and> ep_video_link r \<noteq> SNull"
    by (simp add: init_db_def)
next
  fix d :: "'a db" and req
  assume "\<forall>r\<in>set (tv_episodes d).
      ep_season_number r \<noteq> SNull \<and> ep_episode_number r \<noteq> SNull
      \<and> ep_video_link r \<noteq> SNull"
  with handle_cases [of cv d req]
  show "\<forall>r\<in>set (tv_episodes (handle cv d req)).
      ep_season_number r \<noteq> SNull \<and> ep_episode_number r \<noteq> SNull
      \<and> ep_video_link r \<noteq> SNull"
    by (auto simp: children_of_def)
qed

theorem episodes_never_null_witness:
  "tv_episodes (serve engine0
      [AddMedia ''2024-01-01 00:00:00''
         (JObj [(''type'', JStr ''tvseries''), (''title'', JStr ''S'')]),
       AddEpisodes 1 (JArr [unchecked_episode])]) \<noteq> []
   \<and> ep_season_number (hd (tv_episodes (serve engine0
      [AddMedia ''2024-01-01 00:00:00''
         (JObj [(''type'', JStr ''tvseries''), (''title'', JStr ''S'')]),
       AddEpisodes 1 (JArr [unchecked_episode])]))) \<noteq> SNull
   \<and> ep_video_link (hd (tv_episodes (serve engine0
      [AddMedia ''2024-01-01 00:00:00''
         (JObj [(''type'', JStr ''tvseries''), (''title'', JStr ''S'')]),
       AddEpisodes 1 (JArr [unchecked_episode])]))) \<noteq> SNull"
proof -
  let ?d = "serve engine0
      [AddMedia ''2024-01-01 00:00:00''
         (JObj [(''type'', JStr ''tvseries''), (''title'', JStr ''S'')]),
       AddEpisodes 1 (JArr [unchecked_episode])]"
  have stored: "tv_episodes ?d \<noteq> []"
    by (simp add: serve_def unchecked_episode_def engine0_def view_defs)
  then have "hd (tv_episodes ?d) \<in> set (tv_episodes ?d)"
    by (rule hd_in_set)
  with episodes_never_null [of engine0
      "[AddMedia ''2024-01-01 00:00:00''
         (JObj [(''type'', JStr ''tvseries''), (''title'', JStr ''S'')]),
       AddEpisodes 1 (JArr [unchecked_episode])]"]
  have "ep_season_number (hd (tv_episodes ?d)) \<noteq> SNull
      \<and> ep_episode_number (hd (tv_episodes ?d)) \<noteq> SNull
      \<and> ep_video_link (hd (tv_episodes ?d)) \<noteq> SNull"
    by (rule bspec)
  with stored show ?thesis by (intro conjI) (elim conjE, assumption)+
qed

section \<open>An array that does not match the type\<close>

text \<open>\<open>add_media\<close> reads the body through its keys; a key it never reads can be
  taken out of the body without changing the outcome.\<close>

lemma without_map_of: "k \<noteq> key \<Longrightarrow> map_of (without key kvs) k = map_of kvs k"
  by (induction kvs) (auto simp: without_def)

lemma without_keys:
  "k \<noteq> key \<Longrightarrow> (k \<in> fst ` set (without key kvs)) = (k \<in> fst ` set kvs)"
  by (induction kvs) (auto simp: without_def)

lemma add_media_without:
  assumes media: "media_params (JObj kvs') = media_params (JObj kvs)"
    and req: "has_required (JObj kvs') = has_required (JObj kvs)"
    and ty: "map_of kvs' ''type'' = map_of kvs ''type''"
    and ch: "\<And>mid c. insert_children cv mid (JObj kvs') c = insert_children cv mid (JObj kvs) c"
  shows "add_media cv now d (JObj kvs') = add_media cv now d (JObj kvs)"
proof -
  have body: "add_media_body cv now (JObj kvs') = add_media_body cv now (JObj kvs)"
    by (rule ext) (simp add: add_media_body_def media ch cong: sum.case_cong)
  have gi: "py_getitem (JObj kvs') ''type'' = py_getitem (JObj kvs) ''type''"
    using ty by simp
  show ?thesis
    unfolding add_media_def req gi body ..
qed

lemma insert_children_without_links:
  assumes "map_of kvs ''type'' = Some (JStr ''tvseries'')"
  shows "insert_children cv mid (JObj (without ''video_links'' kvs)) c
      = insert_children cv mid (JObj kvs) c"
proof -
  have t: "type_and_key (JObj kvs) ''movie'' ''video_links'' = Inr False"
    "type_and_key (JObj (without ''video_links'' kvs)) ''movie'' ''video_links'' = Inr False"
    using assms by (simp_all add: type_and_key_def without_map_of)
  have e: "type_and_key (JObj (without ''video_links'' kvs)) ''tvseries'' ''episodes''
      = type_and_key (JObj kvs) ''tvseries'' ''episodes''"
    using assms by (simp add: type_and_key_def without_map_of without_keys)
  have f: "for_each (JObj (without ''video_links'' kvs)) ''episodes''
      = for_each (JObj kvs) ''episodes''"
    by (intro ext) (simp add: for_each_def without_map_of)
  show ?thesis
    unfolding insert_children_def t e f by (simp split: sum.splits bool.splits)
qed

lemma insert_children_without_episodes:
  assumes "map_of kvs ''type'' = Some (JStr ''movie'')"
  shows "insert_children cv mid (JObj (without ''episodes'' kvs)) c
      = insert_children cv mid (JObj kvs) c"
proof -
  have t: "type_and_key (JObj kvs) ''tvseries'' ''episodes'' = Inr False"
    "type_and_key (JObj (without ''episodes'' kvs)) ''tvseries'' ''episodes'' = Inr False"
    using assms by (simp_all add: type_and_key_def without_map_of)
  have e: "type_and_key (JObj (without ''episodes'' kvs)) ''movie'' ''video_links''
      = type_and_key (JObj kvs) ''movie'' ''video_links''"
    using assms by (simp add: type_and_key_def without_map_of without_keys)
  have f: "for_each (JObj (without ''episodes'' kvs)) ''video_links''
      = for_each (JObj kvs) ''video_links''"
    by (intro ext) (simp add: for_each_def without_map_of)
  show ?thesis
    unfolding insert_children_def t e f by (simp split: sum.splits bool.splits)
qed

lemma optional_bind:
  "optional_text kvs key \<Longrightarrow>
   bind_param cv (case map_of kvs key of None \<Rightarrow> JNull | Some v \<Rightarrow> v)
     = Inr (text_value kvs key)"
  by (auto simp: optional_text_def text_value_def split: option.splits json.splits)

lemma text_value_affinity: "affinity_text cv (text_value kvs key) = text_value kvs key"
  by (auto simp: text_value_def split: option.splits json.splits)

lemma add_media_plain:
  assumes ty: "map_of kvs ''type'' = Some (JStr ty)"
    and ok: "ty = ''movie'' \<or> ty = ''tvseries''"
    and ti: "map_of kvs ''title'' = Some (JStr t)"
    and opt: "optional_text kvs ''thumbnail_url''" "optional_text kvs ''details''"
      "optional_text kvs ''release_date''"
    and none: "ty = ''movie'' \<longrightarrow> map_of kvs ''video_links'' = None"
      "ty = ''tvseries'' \<longrightarrow> map_of kvs ''episodes'' = None"
  shows "add_media cv now d (JObj kvs)
     = (Response 201 (JObj [(''message'', JStr ''Media added successfully''),
                            (''id'', JInt (media_seq d + 1))]),
        d\<lparr>media := media d @
             [\<lparr>m_id = media_seq d + 1, m_type = SText ty, m_title = SText t,
               m_thumbnail_url = text_value kvs ''thumbnail_url'',
               m_details = text_value kvs ''details'',
               m_release_date = text_value kvs ''release_date'',
               m_created_at = SText now\<rparr>],
           media_seq := media_seq d + 1\<rparr>)"
proof -
  from ty ti have keys: "''type'' \<in> fst ` set kvs" "''title'' \<in> fst ` set kvs"
    by (metis map_of_eq_None_iff option.distinct(1))+
  then have req: "has_required (JObj kvs) = Inr True"
    by (simp add: has_required_def)
  from none have absent: "ty = ''movie'' \<longrightarrow> ''video_links'' \<notin> fst ` set kvs"
    "ty = ''tvseries'' \<longrightarrow> ''episodes'' \<notin> fst ` set kvs"
    by (simp_all add: map_of_eq_None_iff)
  have ch: "insert_children cv mid (JObj kvs) c = (Inr (), c)" for mid c
    using ty ok absent by (auto simp: insert_children_def type_and_key_def)
  have ps: "media_params (JObj kvs)
      = Inr [JStr ty, JStr t,
             (case map_of kvs ''thumbnail_url'' of None \<Rightarrow> JNull | Some v \<Rightarrow> v),
             (case map_of kvs ''details'' of None \<Rightarrow> JNull | Some v \<Rightarrow> v),
             (case map_of kvs ''release_date'' of None \<Rightarrow> JNull | Some v \<Rightarrow> v)]"
    using ty ti by (simp add: media_params_def split: option.splits)
  have ex: "execute (insert_media cv now) cv
      [JStr ty, JStr t,
       (case map_of kvs ''thumbnail_url'' of None \<Rightarrow> JNull | Some v \<Rightarrow> v),
       (case map_of kvs ''details'' of None \<Rightarrow> JNull | Some v \<Rightarrow> v),
       (case map_of kvs ''release_date'' of None \<Rightarrow> JNull | Some v \<Rightarrow> v)] (get_db d)
     = Inr ((get_db d)\<lparr>txn := d\<lparr>media := media d @
             [\<lparr>m_id = media_seq d + 1, m_type = SText ty, m_title = SText t,
               m_thumbnail_url = text_value kvs ''thumbnail_url'',
               m_details = text_value kvs ''details'',
               m_release_date = text_value kvs ''release_date'',
               m_created_at = SText now\<rparr>],
           media_seq := media_seq d + 1\<rparr>, lastrowid := media_seq d + 1\<rparr>)"
    using ok opt
    by (auto simp: execute_def optional_bind text_value_affinity get_db_sel Let_def)
  have body: "add_media_body cv now (JObj kvs) (get_db d)
      = (Inr (Response 201 (JObj [(''message'', JStr ''Media added successfully''),
                                  (''id'', JInt (media_seq d + 1))])),
         commit ((get_db d)\<lparr>txn := d\<lparr>media := media d @
             [\<lparr>m_id = media_seq d + 1, m_type = SText ty, m_title = SText t,
               m_thumbnail_url = text_value kvs ''thumbnail_url'',
               m_details = text_value kvs ''details'',
               m_release_date = text_value kvs ''release_date'',
               m_created_at = SText now\<rparr>],
           media_seq := media_seq d + 1\<rparr>, lastrowid := media_seq d + 1\<rparr>))"
    by (simp add: add_media_body_def ps ex ch)
  have "py_getitem (JObj kvs) ''type'' = Inr (JStr ty)"
    using ty by simp
  with req ok show ?thesis
    by (auto simp: add_media_def with_conn_def body commit_def)
qed

text \<open>
  Claim C8. An array that does not match the type is ignored. For a \<open>tvseries\<close> the
  outcome of \<open>add_media\<close> is the one of the same body without \<open>video_links\<close>, and
  for a \<open>movie\<close> the one of the same body without \<open>episodes\<close>, whatever the value
  under that key. In particular, when the body carries only the mismatched array and
  its media fields are valid (a string title; thumbnail, details and release date
  strings, \<open>null\<close> or absent), the call succeeds with 201 and the new id, exactly one
  media row is inserted, and both child tables are left as they were.
\<close>

theorem mismatched_array_ignored:
  "(map_of kvs ''type'' = Some (JStr ''tvseries'') \<longrightarrow>
      add_media cv now d (JObj kvs) = add_media cv now d (JObj (without ''video_links'' kvs)))
   \<and> (map_of kvs ''type'' = Some (JStr ''movie'') \<longrightarrow>
      add_media cv now d (JObj kvs) = add_media cv now d (JObj (without ''episodes'' kvs)))
   \<and> (map_of kvs ''type'' = Some (JStr ty)
      \<and> (ty = ''tvseries'' \<and> map_of kvs ''video_links'' = Some v
             \<and> map_of kvs ''episodes'' = None
          \<or> ty = ''movie'' \<and> map_of kvs ''episodes'' = Some v
             \<and> map_of kvs ''video_links'' = None)
      \<and> map_of kvs ''title'' = Some (JStr t)
      \<and> optional_text kvs ''thumbnail_url'' \<and> optional_text kvs ''details''
      \<and> optional_text kvs ''release_date''
    \<longrightarrow> add_media cv now d (JObj kvs)
        = (Response 201 (JObj [(''message'', JStr ''Media added successfully''),
                               (''id'', JInt (media_seq d + 1))]),
           d\<lparr>media := media d @
                [\<lparr>m_id = media_seq d + 1, m_type = SText ty, m_title = SText t,
                  m_thumbnail_url = text_value kvs ''thumbnail_url'',
                  m_details = text_value kvs ''details'',
                  m_release_date = text_value kvs ''release_date'',
                  m_created_at = SText now\<rparr>],
              media_seq := media_seq d + 1\<rparr>))"
  (is "(?A \<longrightarrow> ?A') \<and> (?B \<longrightarrow> ?B') \<and> (?C \<longrightarrow> ?C')")
proof -
  have a: "?A'" if "?A"
  proof -
    have "add_media cv now d (JObj (without ''video_links'' kvs))
        = add_media cv now d (JObj kvs)"
    proof (rule add_media_without)
      show "media_params (JObj (without ''video_links'' kvs)) = media_params (JObj kvs)"
        by (simp add: media_params_def without_map_of
            cong: sum.case_cong option.case_cong)
      show "has_required (JObj (without ''video_links'' kvs)) = has_required (JObj kvs)"
        by (simp add: has_required_def without_keys split: bool.splits)
      show "map_of (without ''video_links'' kvs) ''type'' = map_of kvs ''type''"
        by (simp add: without_map_of)
      show "insert_children cv mid (JObj (without ''video_links'' kvs)) c
          = insert_children cv mid (JObj kvs) c" for mid c
        using that by (rule insert_children_without_links)
    qed
    then show ?thesis by simp
  qed
  have b: "?B'" if "?B"
  proof -
    have "add_media cv now d (JObj (without ''episodes'' kvs))
        = add_media cv now d (JObj kvs)"
    proof (rule add_media_without)
      show "media_params (JObj (without ''episodes'' kvs)) = media_params (JObj kvs)"
        by (simp add: media_params_def without_map_of
            cong: sum.case_cong option.case_cong)
      show "has_required (JObj (without ''episodes'' kvs)) = has_required (JObj kvs)"
        by (simp add: has_required_def without_keys split: bool.splits)
      show "map_of (without ''episodes'' kvs) ''type'' = map_of kvs ''type''"
        by (simp add: without_map_of)
      show "insert_children cv mid (JObj (without ''episodes'' kvs)) c
          = insert_children cv mid (JObj kvs) c" for mid c
        using that by (rule insert_children_without_episodes)
    qed
    then show ?thesis by simp
  qed
  have c: "?C'" if "?C"
    using that by (intro add_media_plain) auto
  from a b c show ?thesis by blast
qed

theorem mismatched_array_ignored_witness:
  "add_media engine0 ''2024-01-01 00:00:00'' series_db mismatched_payload
     = add_media engine0 ''2024-01-01 00:00:00'' series_db
         (JObj [(''type'', JStr ''tvseries''), (''title'', JStr ''S'')])
   \<and> add_media engine0 ''2024-01-01 00:00:00'' series_db mismatched_movie
     = add_media engine0 ''2024-01-01 00:00:00'' series_db
         (JObj [(''type'', JStr ''movie''), (''title'', JStr ''X'')])
   \<and> fst (add_media engine0 ''2024-01-01 00:00:00'' series_db mismatched_payload)
     = Response 201 (JObj [(''message'', JStr ''Media added successfully''),
                           (''id'', JInt 2)])
   \<and> movie_links (snd (add_media engine0 ''2024-01-01 00:00:00'' series_db
         mismatched_payload)) = []
   \<and> tv_episodes (snd (add_media engine0 ''2024-01-01 00:00:00'' series_db
         mismatched_payload)) = []"
proof -
  let ?links = "JArr [JObj [(''resolution'', JStr ''720p''),
                            (''video_link'', JStr ''http://a'')]] :: unit json"
  let ?eps = "JArr [JObj [(''season_number'', JInt 1), (''episode_number'', JInt 1),
                          (''video_link'', JStr ''http://a'')]] :: unit json"
  let ?s = "[(''type'', JStr ''tvseries''), (''title'', JStr ''S''),
             (''video_links'', ?links)]"
  let ?m = "[(''type'', JStr ''movie''), (''title'', JStr ''X''), (''episodes'', ?eps)]"
  have a: "map_of ?s ''type'' = Some (JStr ''tvseries'')"
    by simp
  have b: "map_of ?m ''type'' = Some (JStr ''movie'')"
    by simp
  have c: "map_of ?s ''type'' = Some (JStr ''tvseries'')
      \<and> (''tvseries'' = ''tvseries'' \<and> map_of ?s ''video_links'' = Some ?links
             \<and> map_of ?s ''episodes'' = None
          \<or> ''tvseries'' = ''movie'' \<and> map_of ?s ''episodes'' = Some ?links
             \<and> map_of ?s ''video_links'' = None)
      \<and> map_of ?s ''title'' = Some (JStr ''S'')
      \<and> optional_text ?s ''thumbnail_url'' \<and> optional_text ?s ''details''
      \<and> optional_text ?s ''release_date''"
    by (simp add: optional_text_def)
  note ignored = mismatched_array_ignored [where cv = engine0
      and now = "''2024-01-01 00:00:00''" and d = series_db]
  have "add_media engine0 ''2024-01-01 00:00:00'' series_db (JObj ?s)
      = add_media engine0 ''2024-01-01 00:00:00'' series_db
          (JObj (without ''video_links'' ?s))"
    by (rule mp [OF conjunct1 [OF ignored [where kvs = ?s]] a])
  moreover have "add_media engine0 ''2024-01-01 00:00:00'' series_db (JObj ?m)
      = add_media engine0 ''2024-01-01 00:00:00'' series_db
          (JObj (without ''episodes'' ?m))"
    by (rule mp [OF conjunct1 [OF conjunct2 [OF ignored [where kvs = ?m]]] b])
  moreover note mp [OF conjunct2 [OF conjunct2 [OF ignored [where kvs = ?s
      and ty = "''tvseries''" and v = ?links and t = "''S''"]]] c]
  ultimately show ?thesis
    by (simp add: mismatched_payload_def mismatched_movie_def without_def series_db_eq)
qed

section \<open>Reading back what was created\<close>











lemma to_json_JInt: "to_json v = JInt i \<longleftrightarrow> v = SInt i"
  by (cases v) auto









end
